theory Spec2Isabelle
  imports Complex_Main "HOL-Library.AList"
begin

section \<open>DocTermTable: a document-term table with Higher-Criticism calibration\<close>

text \<open>
  A shallow embedding of the class \<open>DocTermTable\<close> of \<open>DocTermTable.py\<close>.
  Objects are records, methods are functions on records. A method that mutates its
  argument table returns the argument's state after the call next to its result; the
  state is returned also when the call raises, since Python keeps the mutation.
  A raise is a value \<open>Inl e\<close>.

  Conventions of the embedding:
  \<^item> a count matrix is the list of its rows; it stands for a scipy sparse matrix (or
    the \<open>np.matrix\<close> that \<open>sum(0)\<close> returns), whose iteration yields the rows as
    matrices of one row; such matrices are rectangular, so the rows of a matrix that
    stands for one all have one length;
  \<^item> a matrix has a dtype. The matrix that a caller hands to the constructor is of
    numpy's default integer type \<open>int64\<close>, whose arithmetic wraps around at 64 bits;
    the matrix that \<open>change_vocabulary\<close> builds is of type \<open>float64\<close>, whose
    arithmetic rounds to 53 significant bits. Every \<open>float64\<close> entry that occurs
    comes from integers by conversion, addition or subtraction and so is an integer
    itself; it is represented by that integer;
  \<^item> a count vector that went through \<open>np.squeeze\<close> is a list; a list of length one
    stands for the zero-dimensional array that \<open>np.squeeze\<close> makes of a single entry,
    which numpy broadcasts against any other vector. The vectors \<open>_counts\<close>,
    \<open>_terms_per_doc\<close> and the external counts given to \<open>_get_Pvals\<close> are \<open>int64\<close>;
  \<^item> a Python dict is an association list in insertion order;
  \<^item> a p-value or an HC score is \<open>NaN\<close>, an infinity or a finite rational; the
    quotient of two integers is kept exact (the rounding to 64 bits is not modelled);
  \<^item> \<open>print\<close> writes nothing that a later computation reads, and is left out;
  \<^item> the keyword argument \<open>within\<close> of the source is written \<open>within_arg\<close>.
\<close>

subsection \<open>Floats, errors and the functions of \<open>HC_aux\<close>\<close>

datatype pyfloat = NaN | NegInf | Fin rat | PosInf

text \<open>\<open>a < b\<close> on floats: every comparison with \<open>NaN\<close> is false.\<close>

fun fl_less :: "pyfloat \<Rightarrow> pyfloat \<Rightarrow> bool" where
  "fl_less NaN b = False"
| "fl_less a NaN = False"
| "fl_less NegInf NegInf = False"
| "fl_less NegInf b = True"
| "fl_less (Fin x) (Fin y) = (x < y)"
| "fl_less (Fin x) PosInf = True"
| "fl_less (Fin x) NegInf = False"
| "fl_less PosInf b = False"

text \<open>
  \<open>s / d\<close> for a numpy integer \<open>s\<close> and an integer \<open>d\<close>: true division; a zero
  divisor gives an infinity or \<open>NaN\<close> with a warning, not an exception.
\<close>

definition np_true_divide :: "int \<Rightarrow> int \<Rightarrow> pyfloat" where
  "np_true_divide s d =
     (if d = 0 then (if s = 0 then NaN else if 0 < s then PosInf else NegInf)
      else Fin (of_int s / of_int d))"

datatype error =
    ValueError_all_zero       \<comment> \<open>ValueError("seems like all counts are zero. ...")\<close>
  | ValueError_within         \<comment> \<open>ValueError("'within == True' is invalid")\<close>
  | ValueError_LOO_empty      \<comment> \<open>ValueError("list of LOO Pvals is empty")\<close>
  | ValueError_shape          \<comment> \<open>numpy/scipy: operands or blocks of incompatible shapes\<close>
  | AssertionError            \<comment> \<open>\<open>assert (cnt0.shape == cnt1.shape)\<close>\<close>
  | AttributeError_NoneType   \<comment> \<open>attribute access on \<open>None\<close>\<close>
  | IndexError
  | KeyError

text \<open>
  The module \<open>HC_aux\<close> is imported by \<open>DocTermTable.py\<close> and is not part of the
  sources at hand. Its two functions that the class calls are parameters of the
  embedding:
  \<^item> \<open>two_counts_pvals c1 c2\<close>, the column \<open>pval\<close> of the result, as an array;
  \<^item> \<open>hc_vals pv stbl alpha\<close>, the pair of the HC score and the p-value threshold;
    \<open>alpha\<close> is \<open>None\<close> where the call leaves the keyword out.
\<close>

record HC_aux =
  two_counts_pvals :: "int list \<Rightarrow> int list \<Rightarrow> pyfloat list"
  hc_vals :: "pyfloat list \<Rightarrow> bool \<Rightarrow> rat option \<Rightarrow> pyfloat \<times> pyfloat"

subsection \<open>The arithmetic of numpy\<close>

datatype dtype = Int64 | Float64

text \<open>The value of an integer in 64-bit two's complement: \<open>int64\<close> arithmetic wraps.\<close>

definition wrap64 :: "int \<Rightarrow> int" where
  "wrap64 x = (x + 2 ^ 63) mod 2 ^ 64 - 2 ^ 63"

text \<open>The number of bits of a positive integer.\<close>

function bit_length :: "int \<Rightarrow> nat" where
  "bit_length x = (if x \<le> 0 then 0 else Suc (bit_length (x div 2)))"
  by pat_completeness auto
termination
  by (relation "measure nat") auto

declare bit_length.simps [simp del]

text \<open>
  The \<open>float64\<close> nearest to an integer, ties to the even mantissa: an integer below
  \<open>2 ^ 53\<close> in absolute value is kept; a larger one keeps its 53 leading bits, rounded.
  (The integers met here stay far below the largest \<open>float64\<close>.)
\<close>

definition f64 :: "int \<Rightarrow> int" where
  "f64 x =
     (if \<bar>x\<bar> < 2 ^ 53 then x
      else
        (let e = bit_length \<bar>x\<bar> - 53;
             q = \<bar>x\<bar> div 2 ^ e;
             r = \<bar>x\<bar> mod 2 ^ e;
             q1 = (if 2 ^ (e - 1) < r \<or> (r = 2 ^ (e - 1) \<and> odd q) then q + 1 else q)
         in sgn x * (q1 * 2 ^ e)))"

text \<open>
  \<open>.astype(int)\<close> on a \<open>float64\<close>: the integer itself when it is an \<open>int64\<close>, and
  the least \<open>int64\<close> otherwise (what the conversion instruction of x86-64 gives, with
  numpy's warning).
\<close>

definition cast_int64 :: "int \<Rightarrow> int" where
  "cast_int64 x = (if - (2 ^ 63) \<le> x \<and> x < 2 ^ 63 then x else - (2 ^ 63))"

definition astype_int :: "dtype \<Rightarrow> int \<Rightarrow> int" where
  "astype_int dt x = (case dt of Int64 \<Rightarrow> x | Float64 \<Rightarrow> cast_int64 x)"

text \<open>The common dtype of two operands, and the conversion of an entry to it.\<close>

definition promote :: "dtype \<Rightarrow> dtype \<Rightarrow> dtype" where
  "promote da db = (if da = Int64 \<and> db = Int64 then Int64 else Float64)"

definition as_dtype :: "dtype \<Rightarrow> dtype \<Rightarrow> int \<Rightarrow> int" where
  "as_dtype da dt x = (if da = Int64 \<and> dt = Float64 then f64 x else x)"

text \<open>The result of an exact sum or difference, stored in a dtype.\<close>

definition store :: "dtype \<Rightarrow> int \<Rightarrow> int" where
  "store dt x = (case dt of Int64 \<Rightarrow> wrap64 x | Float64 \<Rightarrow> f64 x)"

text \<open>
  The sum of the entries of a vector. In \<open>int64\<close> the order of the additions does not
  matter. In \<open>float64\<close> the entries are added in index order, each partial sum
  rounded, as the sparse routines do; where the partial sums stay below \<open>2 ^ 53\<close>
  every order gives the exact sum.
\<close>

definition np_sum :: "dtype \<Rightarrow> int list \<Rightarrow> int" where
  "np_sum dt xs = foldl (\<lambda>a x. store dt (a + x)) 0 xs"

subsection \<open>Vectors and matrices\<close>

type_synonym matrix = "int list list"

definition ncols :: "matrix \<Rightarrow> nat" where
  "ncols m = (case m of [] \<Rightarrow> 0 | r # rs \<Rightarrow> length r)"

text \<open>
  \<open>dtm.sum()\<close> (the row sums, summed), \<open>dtm.sum(1)\<close> and \<open>dtm.sum(0)\<close>, in the dtype
  of the matrix.
\<close>

definition sum_all :: "dtype \<Rightarrow> matrix \<Rightarrow> int" where
  "sum_all dt m = np_sum dt (map (np_sum dt) m)"

definition row_sums :: "dtype \<Rightarrow> matrix \<Rightarrow> int list" where
  "row_sums dt m = map (np_sum dt) m"

definition col_sums :: "dtype \<Rightarrow> matrix \<Rightarrow> int list" where
  "col_sums dt m = map (\<lambda>j. np_sum dt (map (\<lambda>r. r ! j) m)) [0..<ncols m]"

text \<open>
  An arithmetic operation of numpy on two squeezed vectors: the operands are
  converted to their common dtype, the operation is done entry by entry when the
  lengths agree and broadcast when one of the vectors is a single entry, and each
  result is stored in the common dtype; other lengths are an error.
\<close>

definition np_binop ::
  "(int \<Rightarrow> int \<Rightarrow> int) \<Rightarrow> dtype \<Rightarrow> int list \<Rightarrow> dtype \<Rightarrow> int list \<Rightarrow> error + int list" where
  "np_binop f da a db b =
     (let dt = promote da db;
          a1 = map (as_dtype da dt) a;
          b1 = map (as_dtype db dt) b;
          g = (\<lambda>x y. store dt (f x y))
      in if length a1 = length b1 then Inr (map2 g a1 b1)
         else if length a1 = 1 then Inr (map (\<lambda>y. g (hd a1) y) b1)
         else if length b1 = 1 then Inr (map (\<lambda>x. g x (hd b1)) a1)
         else Inl ValueError_shape)"

text \<open>Sum and difference of two \<open>int64\<close> vectors.\<close>

definition np_add :: "int list \<Rightarrow> int list \<Rightarrow> error + int list" where
  "np_add a b = np_binop (\<lambda>x y. x + y) Int64 a Int64 b"

definition np_sub :: "int list \<Rightarrow> int list \<Rightarrow> error + int list" where
  "np_sub a b = np_binop (\<lambda>x y. x - y) Int64 a Int64 b"

text \<open>The difference of two \<open>int64\<close> entries.\<close>

definition sub64 :: "int \<Rightarrow> int \<Rightarrow> int" where
  "sub64 x y = wrap64 (x - y)"

text \<open>\<open>np.any(v < 0)\<close>.\<close>

definition any_negative :: "int list \<Rightarrow> bool" where
  "any_negative v = list_ex (\<lambda>x. x < 0) v"

text \<open>
  \<open>vstack([a, b])\<close>: the blocks must have the same number of columns, and the stack
  has their common dtype. (A matrix with no row does not record its number of columns
  here and is stacked with anything; no table holds such a matrix, since the
  constructor rejects it.)
\<close>

definition vstack :: "dtype \<Rightarrow> matrix \<Rightarrow> dtype \<Rightarrow> matrix \<Rightarrow> error + dtype \<times> matrix" where
  "vstack da a db b =
     (if a \<noteq> [] \<and> b \<noteq> [] \<and> ncols a \<noteq> ncols b then Inl ValueError_shape
      else Inr (promote da db,
                map (map (as_dtype da (promote da db))) a @
                map (map (as_dtype db (promote da db))) b))"

text \<open>\<open>vocab.index(w)\<close>: the first position of \<open>w\<close>, or a \<open>ValueError\<close> (here \<open>None\<close>).\<close>

fun index_of :: "'a list \<Rightarrow> 'a \<Rightarrow> nat option" where
  "index_of [] w = None"
| "index_of (x # xs) w = (if x = w then Some 0 else map_option Suc (index_of xs w))"

subsection \<open>Document names\<close>

definition digit_char :: "nat \<Rightarrow> char" where
  "digit_char d = ''0123456789'' ! d"

text \<open>\<open>str(i)\<close> for a natural number.\<close>

fun str_nat :: "nat \<Rightarrow> string" where
  "str_nat n = (if n < 10 then [digit_char n] else str_nat (n div 10) @ [digit_char (n mod 10)])"

declare str_nat.simps [simp del]

text \<open>
  \<open>dict(pairs)\<close>: a key seen again keeps its place and takes the later value.
\<close>

definition py_dict :: "('k \<times> 'v) list \<Rightarrow> ('k \<times> 'v) list" where
  "py_dict ps = fold (\<lambda>(k, v) d. AList.update k v d) ps []"

subsection \<open>The class\<close>

record DocTermTable =
  doc_names :: "(string \<times> nat) list"
  feature_names :: "string list"
  dtm :: matrix
  dtm_dtype :: dtype
  stbl :: bool
  terms_per_doc :: "int list"
  counts :: "int list"
  internal_scores :: "pyfloat list"

text \<open>
  \<open>_get_Pvals(self, counts, within)\<close>. Both vectors are squeezed, their shapes are
  asserted equal, and with \<open>within\<close> the external counts are taken off the table's
  counts before the test.
\<close>

definition priv_get_Pvals :: "HC_aux \<Rightarrow> DocTermTable \<Rightarrow> int list \<Rightarrow> bool \<Rightarrow> error + pyfloat list" where
  "priv_get_Pvals E self cnts within_arg =
     (let cnt0 = counts self; cnt1 = cnts in
      if length cnt0 \<noteq> length cnt1 then Inl AssertionError
      else if within_arg then
        (let cnt2 = map2 sub64 cnt0 cnt1 in
         if any_negative cnt2 then Inl ValueError_within
         else Inr (two_counts_pvals E cnt1 cnt2))
      else Inr (two_counts_pvals E cnt1 cnt0))"

text \<open>
  The loop of \<open>__compute_internal_stat\<close>: one HC score for each row, appended to
  \<open>_internal_scores\<close>. The row is converted by \<open>.astype(int)\<close>. A raise leaves the
  scores appended so far.
\<close>

fun internal_scores_loop :: "HC_aux \<Rightarrow> DocTermTable \<Rightarrow> matrix \<Rightarrow> DocTermTable \<times> error option" where
  "internal_scores_loop E self [] = (self, None)"
| "internal_scores_loop E self (row # rows) =
     (case priv_get_Pvals E self (map (astype_int (dtm_dtype self)) row) True of
        Inl e \<Rightarrow> (self, Some e)
      | Inr pv \<Rightarrow>
          internal_scores_loop E
            (self\<lparr>internal_scores :=
               internal_scores self @ [fst (hc_vals E pv (stbl self) (Some (45 / 100)))]\<rparr>)
            rows)"

definition priv_compute_internal_stat :: "HC_aux \<Rightarrow> DocTermTable \<Rightarrow> DocTermTable \<times> error option" where
  "priv_compute_internal_stat E self =
     internal_scores_loop E
       (self\<lparr>terms_per_doc :=
               map (astype_int (dtm_dtype self)) (row_sums (dtm_dtype self) (dtm self)),
             counts := map (astype_int (dtm_dtype self)) (col_sums (dtm_dtype self) (dtm self)),
             internal_scores := []\<rparr>)
       (dtm self)"

text \<open>
  \<open>__init__(dtm, feature_names, document_names, stbl)\<close>. The attributes are
  assigned first (\<open>init_attributes\<close>: the default document names, the dict of the
  names cut to the number of rows, the vocabulary, the matrix, the flag), then the
  total is checked and the statistics are computed. The object exists for the caller
  only when the constructor returns. \<open>init_with_dtype\<close> is the constructor at a
  matrix of any dtype, as the methods of the class call it; \<open>DocTermTable_init\<close> is
  the constructor at an \<open>int64\<close> matrix, as a caller builds a table from counts.
\<close>

definition init_attributes ::
  "dtype \<Rightarrow> matrix \<Rightarrow> string list \<Rightarrow> string list \<Rightarrow> bool \<Rightarrow> DocTermTable" where
  "init_attributes dt m features documents st =
     (let documents1 =
            (if documents = [] then map (\<lambda>i. ''doc'' @ str_nat i) [0..<length m]
             else documents);
          names = take (length m) documents1
      in \<lparr>doc_names = py_dict (zip names [0..<length names]),
          feature_names = features,
          dtm = m,
          dtm_dtype = dt,
          stbl = st,
          terms_per_doc = [],
          counts = [],
          internal_scores = []\<rparr>)"

definition init_with_dtype ::
  "HC_aux \<Rightarrow> dtype \<Rightarrow> matrix \<Rightarrow> string list \<Rightarrow> string list \<Rightarrow> bool \<Rightarrow> error + DocTermTable" where
  "init_with_dtype E dt m features documents st =
     (let self = init_attributes dt m features documents st
      in if sum_all dt m = 0 then Inl ValueError_all_zero
         else (case priv_compute_internal_stat E self of
                 (self1, Some e) \<Rightarrow> Inl e
               | (self1, None) \<Rightarrow> Inr self1))"

definition DocTermTable_init ::
  "HC_aux \<Rightarrow> matrix \<Rightarrow> string list \<Rightarrow> string list \<Rightarrow> bool \<Rightarrow> error + DocTermTable" where
  "DocTermTable_init E m features documents st = init_with_dtype E Int64 m features documents st"

text \<open>
  \<open>change_vocabulary(new_vocabulary)\<close>: the new matrix is a \<open>float64\<close> matrix of
  zeros; column \<open>i\<close> is assigned the column of the old matrix at the first position
  of the \<open>i\<close>-th new word, converted to \<open>float64\<close>; the bare \<open>except\<close> leaves the
  column zero when the word is missing or the position is not a column. The method
  returns \<open>None\<close>; its effect is the new state of \<open>self\<close>.
\<close>

definition realign_row :: "dtype \<Rightarrow> string list \<Rightarrow> string list \<Rightarrow> int list \<Rightarrow> int list" where
  "realign_row dt old_vocab new_vocabulary r =
     map (\<lambda>w. case index_of old_vocab w of
                 None \<Rightarrow> 0
               | Some j \<Rightarrow> if j < length r then as_dtype dt Float64 (r ! j) else 0) new_vocabulary"

definition change_vocabulary :: "HC_aux \<Rightarrow> DocTermTable \<Rightarrow> string list \<Rightarrow> DocTermTable \<times> error option" where
  "change_vocabulary E self new_vocabulary =
     (let new_dtm = map (realign_row (dtm_dtype self) (feature_names self) new_vocabulary) (dtm self)
      in priv_compute_internal_stat E
           (self\<lparr>dtm := new_dtm, dtm_dtype := Float64, feature_names := new_vocabulary\<rparr>))"

text \<open>
  \<open>_get_counts(self, dtbl, within)\<close>: the pair of count vectors that the two-table
  statistics compare. A table \<open>dtbl\<close> of another vocabulary is realigned in place
  first.
\<close>

definition priv_get_counts ::
  "HC_aux \<Rightarrow> DocTermTable \<Rightarrow> DocTermTable \<Rightarrow> bool \<Rightarrow> DocTermTable \<times> (error + int list \<times> int list)" where
  "priv_get_counts E self dtbl within_arg =
     (case (if feature_names dtbl \<noteq> feature_names self
            then change_vocabulary E dtbl (feature_names self) else (dtbl, None)) of
        (dtbl1, Some e) \<Rightarrow> (dtbl1, Inl e)
      | (dtbl1, None) \<Rightarrow>
          (let cnt0 = counts self; cnt1 = counts dtbl1 in
           if within_arg then
             (case np_sub cnt0 cnt1 of
                Inl e \<Rightarrow> (dtbl1, Inl e)
              | Inr cnt2 \<Rightarrow>
                  if any_negative cnt2 then (dtbl1, Inl ValueError_within)
                  else (dtbl1, Inr (cnt2, cnt1)))
           else (dtbl1, Inr (cnt0, cnt1))))"

text \<open>
  \<open>get_Pvals(self, dtbl)\<close>: the p-values of another table with respect to this one,
  after the same realignment of \<open>dtbl\<close>.
\<close>

definition get_Pvals ::
  "HC_aux \<Rightarrow> DocTermTable \<Rightarrow> DocTermTable \<Rightarrow> DocTermTable \<times> (error + pyfloat list)" where
  "get_Pvals E self dtbl =
     (case (if feature_names dtbl \<noteq> feature_names self
            then change_vocabulary E dtbl (feature_names self) else (dtbl, None)) of
        (dtbl1, Some e) \<Rightarrow> (dtbl1, Inl e)
      | (dtbl1, None) \<Rightarrow> (dtbl1, priv_get_Pvals E self (counts dtbl1) False))"

text \<open>
  The statistics that go through \<open>_get_counts\<close>. The functions \<open>two_sample_test\<close>
  (of \<open>HC_aux\<close>) and \<open>two_sample_chi_square\<close>, \<open>two_sample_KS\<close>, \<open>cosine_sim\<close> (of
  \<open>utils\<close>) are not among the sources and are arguments here. \<open>two_table_test\<close>
  returns the data frame together with the column \<open>feat\<close> that it is given.
\<close>

definition two_table_test ::
  "HC_aux \<Rightarrow> (int list \<Rightarrow> int list \<Rightarrow> bool \<Rightarrow> 'r) \<Rightarrow> DocTermTable \<Rightarrow> DocTermTable \<Rightarrow> bool \<Rightarrow> bool option
     \<Rightarrow> DocTermTable \<times> (error + 'r \<times> string list)" where
  "two_table_test E two_sample_test self dtbl within_arg stbl_arg =
     (let st = (case stbl_arg of None \<Rightarrow> stbl self | Some b \<Rightarrow> b) in
      case priv_get_counts E self dtbl within_arg of
        (dtbl1, Inl e) \<Rightarrow> (dtbl1, Inl e)
      | (dtbl1, Inr (cnt0, cnt1)) \<Rightarrow>
          (dtbl1, Inr (two_sample_test cnt0 cnt1 st, feature_names self)))"

definition get_ChiSquare ::
  "HC_aux \<Rightarrow> (int list \<Rightarrow> int list \<Rightarrow> 'l \<Rightarrow> 'r) \<Rightarrow> DocTermTable \<Rightarrow> DocTermTable \<Rightarrow> bool \<Rightarrow> 'l
     \<Rightarrow> DocTermTable \<times> (error + 'r)" where
  "get_ChiSquare E two_sample_chi_square self dtbl within_arg lambda_arg =
     (case priv_get_counts E self dtbl within_arg of
        (dtbl1, Inl e) \<Rightarrow> (dtbl1, Inl e)
      | (dtbl1, Inr (cnt0, cnt1)) \<Rightarrow> (dtbl1, Inr (two_sample_chi_square cnt0 cnt1 lambda_arg)))"

definition get_KS ::
  "HC_aux \<Rightarrow> (int list \<Rightarrow> int list \<Rightarrow> 'r) \<Rightarrow> DocTermTable \<Rightarrow> DocTermTable \<Rightarrow> bool
     \<Rightarrow> DocTermTable \<times> (error + 'r)" where
  "get_KS E two_sample_KS self dtbl within_arg =
     (case priv_get_counts E self dtbl within_arg of
        (dtbl1, Inl e) \<Rightarrow> (dtbl1, Inl e)
      | (dtbl1, Inr (cnt0, cnt1)) \<Rightarrow> (dtbl1, Inr (two_sample_KS cnt0 cnt1)))"

definition get_CosineSim ::
  "HC_aux \<Rightarrow> (int list \<Rightarrow> int list \<Rightarrow> 'r) \<Rightarrow> DocTermTable \<Rightarrow> DocTermTable \<Rightarrow> bool
     \<Rightarrow> DocTermTable \<times> (error + 'r)" where
  "get_CosineSim E cosine_sim self dtbl within_arg =
     (case priv_get_counts E self dtbl within_arg of
        (dtbl1, Inl e) \<Rightarrow> (dtbl1, Inl e)
      | (dtbl1, Inr (cnt0, cnt1)) \<Rightarrow> (dtbl1, Inr (cosine_sim cnt0 cnt1)))"

text \<open>
  \<open>__per_doc_Pvals_LOO(self, dtm1)\<close>: the rows of \<open>dtm1\<close> are put on top of the
  table's rows, and each row of the stack is tested against the sum \<open>s\<close> of the
  table's counts and the column sums of \<open>dtm1\<close>, less that row. The loop raises at
  the first row whose subtraction fails. \<open>s\<close> has the dtype of \<open>dtm1\<close> (the counts
  are \<open>int64\<close>), the rows have the dtype of the stack.
\<close>

fun per_doc_loop ::
  "HC_aux \<Rightarrow> dtype \<Rightarrow> int list \<Rightarrow> dtype \<Rightarrow> matrix \<Rightarrow> error + pyfloat list list" where
  "per_doc_loop E ds s dt [] = Inr []"
| "per_doc_loop E ds s dt (c # rs) =
     (case np_binop (\<lambda>x y. x - y) ds s dt c of
        Inl e \<Rightarrow> Inl e
      | Inr rest \<Rightarrow>
          (case per_doc_loop E ds s dt rs of
             Inl e \<Rightarrow> Inl e
           | Inr pv_list \<Rightarrow> Inr (two_counts_pvals E c rest # pv_list)))"

definition priv_per_doc_Pvals_LOO ::
  "HC_aux \<Rightarrow> DocTermTable \<Rightarrow> dtype \<Rightarrow> matrix \<Rightarrow> error + pyfloat list list" where
  "priv_per_doc_Pvals_LOO E self dt1 dtm1 =
     (case vstack dt1 dtm1 (dtm_dtype self) (dtm self) of
        Inl e \<Rightarrow> Inl e
      | Inr (dt_all, dtm_all) \<Rightarrow>
          (let s1 = col_sums dt1 dtm1 in
           case np_binop (\<lambda>x y. x + y) Int64 (counts self) dt1 s1 of
             Inl e \<Rightarrow> Inl e
           | Inr s \<Rightarrow> per_doc_loop E (promote Int64 dt1) s dt_all dtm_all))"

definition per_doc_Pvals_LOO ::
  "HC_aux \<Rightarrow> DocTermTable \<Rightarrow> DocTermTable \<Rightarrow> DocTermTable \<times> (error + pyfloat list list)" where
  "per_doc_Pvals_LOO E self dtbl =
     (case (if feature_names dtbl \<noteq> feature_names self
            then change_vocabulary E dtbl (feature_names self) else (dtbl, None)) of
        (dtbl1, Some e) \<Rightarrow> (dtbl1, Inl e)
      | (dtbl1, None) \<Rightarrow>
          (dtbl1, priv_per_doc_Pvals_LOO E self (dtm_dtype dtbl1) (dtm dtbl1)))"

text \<open>
  \<open>get_doc_as_table(doc_id)\<close>: the row of a document as a table of its own.
\<close>

definition get_doc_as_table :: "HC_aux \<Rightarrow> DocTermTable \<Rightarrow> string \<Rightarrow> error + DocTermTable" where
  "get_doc_as_table E self doc_id =
     (case map_of (doc_names self) doc_id of
        None \<Rightarrow> Inl KeyError
      | Some i \<Rightarrow>
          if i < length (dtm self)
          then init_with_dtype E (dtm_dtype self) [dtm self ! i] (feature_names self) [doc_id]
                 (stbl self)
          else Inl IndexError)"

text \<open>
  \<open>collapse_dtm()\<close>: the single statement \<open>self._dtm = self._dtm.sum(0)\<close>; the sum
  is in the dtype of the matrix.
\<close>

definition collapse_dtm :: "DocTermTable \<Rightarrow> DocTermTable" where
  "collapse_dtm self = self\<lparr>dtm := [col_sums (dtm_dtype self) (dtm self)]\<rparr>"

definition copy :: "HC_aux \<Rightarrow> DocTermTable \<Rightarrow> error + DocTermTable" where
  "copy E self =
     init_with_dtype E (dtm_dtype self) (dtm self) (feature_names self)
       (map fst (doc_names self)) (stbl self)"

text \<open>
  \<open>add_table(dtbl)\<close>, where \<open>dtbl\<close> is a table or \<open>None\<close>. With another
  vocabulary the source runs \<open>dtbl = dtbl.change_vocabulary(feat)\<close>: the argument
  object is realigned in place, and the local name \<open>dtbl\<close> is bound to what the
  method returns, which is \<open>None\<close>; the next statement reads \<open>dtbl._dtm\<close>.
  The first component of the result is the state of the argument object.
\<close>

definition add_table ::
  "HC_aux \<Rightarrow> DocTermTable \<Rightarrow> DocTermTable option \<Rightarrow> DocTermTable option \<times> (error + DocTermTable)" where
  "add_table E self dtbl_arg =
     (case dtbl_arg of
        None \<Rightarrow> (None, copy E self)
      | Some dtbl \<Rightarrow>
          (let feat = feature_names self; feat1 = feature_names dtbl in
           if feat \<noteq> feat1 then
             (case change_vocabulary E dtbl feat of
                (dtbl1, Some e) \<Rightarrow> (Some dtbl1, Inl e)
              | (dtbl1, None) \<Rightarrow> (Some dtbl1, Inl AttributeError_NoneType))
           else
             (case vstack (dtm_dtype self) (dtm self) (dtm_dtype dtbl) (dtm dtbl) of
                Inl e \<Rightarrow> (Some dtbl, Inl e)
              | Inr (dt_tall, dtm_tall) \<Rightarrow>
                  (Some dtbl,
                   init_with_dtype E dt_tall dtm_tall feat
                     (map fst (doc_names self) @ map fst (doc_names dtbl)) (stbl self)))))"

subsection \<open>Rank evaluation\<close>

text \<open>The loop over \<open>features_to_mask\<close>; the bare \<open>except\<close> skips what cannot be set.\<close>

fun mask_features :: "string list \<Rightarrow> string list \<Rightarrow> pyfloat list \<Rightarrow> pyfloat list" where
  "mask_features names [] pvals = pvals"
| "mask_features names (f # fs) pvals =
     mask_features names fs
       (case index_of names f of
          None \<Rightarrow> pvals
        | Some i \<Rightarrow> if i < length pvals then pvals[i := NaN] else pvals)"

text \<open>
  \<open>np.array(self._feature_names)[pvals < p_thr]\<close>: a boolean index of another length
  than the array raises.
\<close>

definition select_features :: "string list \<Rightarrow> pyfloat list \<Rightarrow> pyfloat \<Rightarrow> error + string list" where
  "select_features names pvals p_thr =
     (if length names \<noteq> length pvals then Inl IndexError
      else Inr (map fst (filter (\<lambda>(w, p). fl_less p p_thr) (zip names pvals))))"

text \<open>
  The rank of a score among a list of scores, as both branches of
  \<open>get_HC_rank_features\<close> compute it:
  \<^verbatim>\<open>
  if len(lo_hc) > 0:
      s = np.sum(np.array(lo_hc) < HC) + within
      rank = s / (len(lo_hc) + 1 - within)
  else:
      rank = np.nan
  \<close>
\<close>

definition rank_among :: "pyfloat list \<Rightarrow> pyfloat \<Rightarrow> bool \<Rightarrow> pyfloat" where
  "rank_among lo_hc HC within_arg =
     (if length lo_hc > 0 then
        (let s = int (length (filter (\<lambda>h. fl_less h HC) lo_hc)) + (if within_arg then 1 else 0)
         in np_true_divide s (int (length lo_hc) + 1 - (if within_arg then 1 else 0)))
      else NaN)"

text \<open>
  The first part of \<open>get_HC_rank_features\<close>, up to the assignment of \<open>feat\<close>: the
  p-values of the candidate, the masking, the HC score and the selected features.
  With \<open>within\<close> the counts of \<open>dtbl\<close> are read as they are; without it
  \<open>get_Pvals\<close> realigns \<open>dtbl\<close>.
\<close>

definition candidate_score ::
  "HC_aux \<Rightarrow> DocTermTable \<Rightarrow> DocTermTable \<Rightarrow> string list \<Rightarrow> bool \<Rightarrow> bool
     \<Rightarrow> DocTermTable \<times> (error + pyfloat \<times> string list)" where
  "candidate_score E self dtbl features_to_mask within_arg st =
     (case (if within_arg then (dtbl, priv_get_Pvals E self (counts dtbl) True)
            else get_Pvals E self dtbl) of
        (dtbl1, Inl e) \<Rightarrow> (dtbl1, Inl e)
      | (dtbl1, Inr pvals) \<Rightarrow>
          (let pvals1 = mask_features (feature_names self) features_to_mask pvals;
               (HC, p_thr) = hc_vals E pvals1 st None;
               pvals2 = map (\<lambda>p. if p = NaN then Fin 1 else p) pvals1
           in case select_features (feature_names self) pvals2 p_thr of
                Inl e \<Rightarrow> (dtbl1, Inl e)
              | Inr feat \<Rightarrow> (dtbl1, Inr (HC, feat))))"

text \<open>
  \<open>get_HC_rank_features(dtbl, LOO, features_to_mask, within, stbl)\<close>: the HC score
  of the candidate, its rank and the selected features.
\<close>

definition get_HC_rank_features ::
  "HC_aux \<Rightarrow> DocTermTable \<Rightarrow> DocTermTable \<Rightarrow> bool \<Rightarrow> string list \<Rightarrow> bool \<Rightarrow> bool option
     \<Rightarrow> DocTermTable \<times> (error + pyfloat \<times> pyfloat \<times> string list)" where
  "get_HC_rank_features E self dtbl LOO features_to_mask within_arg stbl_arg =
     (let st = (case stbl_arg of None \<Rightarrow> stbl self | Some b \<Rightarrow> b) in
      case candidate_score E self dtbl features_to_mask within_arg st of
        (dtbl1, Inl e) \<Rightarrow> (dtbl1, Inl e)
      | (dtbl1, Inr (HC, feat)) \<Rightarrow>
          if LOO = False \<or> within_arg = True then
            (dtbl1, Inr (HC, rank_among (internal_scores self) HC within_arg, feat))
          else
            (case per_doc_Pvals_LOO E self dtbl1 of
               (dtbl2, Inl e) \<Rightarrow> (dtbl2, Inl e)
             | (dtbl2, Inr pv_list) \<Rightarrow>
                 (let loo_Pvals = drop 1 pv_list in
                  if length loo_Pvals = 0 then (dtbl2, Inl ValueError_LOO_empty)
                  else
                    (let lo_hc = map (\<lambda>pv. fst (hc_vals E pv st None)) loo_Pvals
                     in (dtbl2, Inr (HC, rank_among lo_hc HC within_arg, feat))))))"

subsection \<open>Well-formed matrices and exact sums\<close>

text \<open>
  The shape of a numpy matrix with \<open>n\<close> columns, and the data model's condition that
  counts are not negative.
\<close>

definition rectangular :: "nat \<Rightarrow> matrix \<Rightarrow> bool" where
  "rectangular n m = list_all (\<lambda>r. length r = n) m"

definition nonnegative :: "matrix \<Rightarrow> bool" where
  "nonnegative m = list_all (list_all (\<lambda>x. 0 \<le> x)) m"

text \<open>
  The sums of the entries as integers, without the arithmetic of a dtype: the total
  of a matrix and the totals of its columns. The dtype of a matrix computes them
  exactly as long as the total of nonnegative entries stays below \<open>exact_bound\<close>
  (lemmas \<open>sum_all_exact\<close>, \<open>col_sums_exact\<close>, \<open>row_sums_exact\<close>).
\<close>

definition grand_total :: "matrix \<Rightarrow> int" where
  "grand_total m = sum_list (map sum_list m)"

definition column_totals :: "matrix \<Rightarrow> int list" where
  "column_totals m = map (\<lambda>j. sum_list (map (\<lambda>r. r ! j) m)) [0..<ncols m]"

definition exact_bound :: "dtype \<Rightarrow> int" where
  "exact_bound dt = (case dt of Int64 \<Rightarrow> 2 ^ 63 | Float64 \<Rightarrow> 2 ^ 53)"

subsection \<open>Tables whose statistics are current\<close>

text \<open>
  The aggregate counts and the internal scores of a table are current when computing
  them again from the table's matrix raises nothing and changes nothing. This is the
  state after the constructor and after \<open>change_vocabulary\<close> (lemmas
  \<open>up_to_date_init\<close>, \<open>up_to_date_change_vocabulary\<close>).
\<close>

definition up_to_date :: "HC_aux \<Rightarrow> DocTermTable \<Rightarrow> bool" where
  "up_to_date E t = (priv_compute_internal_stat E t = (t, None))"

subsection \<open>The rank and the leave-one-out distribution, as the description words them\<close>

text \<open>
  The rank formula of the description: the number of scores strictly below the
  candidate's score, plus one with \<open>within\<close>, over the number of scores plus one
  less one with \<open>within\<close>.
\<close>

definition spec_rank :: "pyfloat list \<Rightarrow> pyfloat \<Rightarrow> bool \<Rightarrow> pyfloat" where
  "spec_rank scores hc within_arg =
     Fin (of_nat (length (filter (\<lambda>h. fl_less h hc) scores) + (if within_arg then 1 else 0)) /
          of_nat (length scores + 1 - (if within_arg then 1 else 0)))"


subsection \<open>A concrete instance\<close>

text \<open>
  An instance of the two functions of \<open>HC_aux\<close> on which the embedding can be run:
  the p-value of a feature is its count in the second sample, and the HC score of a
  p-value vector is its first entry (\<open>NaN\<close> for no entry), with threshold 2. It
  stands for no statistic; it serves to evaluate the methods on examples. The three
  tables are what the constructor returns for it (lemmas \<open>corpus_table_init\<close>,
  \<open>candidate_table_init\<close>, \<open>other_table_init\<close>).
\<close>

definition toy_aux :: HC_aux where
  "toy_aux = \<lparr>two_counts_pvals = (\<lambda>c1 c2. map (\<lambda>x. Fin (of_int x)) c2),
              hc_vals = (\<lambda>pv st al. (case pv of [] \<Rightarrow> NaN | p # ps \<Rightarrow> p, Fin 2))\<rparr>"

definition corpus_table :: DocTermTable where
  "corpus_table = \<lparr>doc_names = [(''doc0'', 0), (''doc1'', 1)], feature_names = [''a'', ''b''],
     dtm = [[2, 0], [0, 2]], dtm_dtype = Int64, stbl = True, terms_per_doc = [2, 2],
     counts = [2, 2], internal_scores = [Fin 0, Fin 2]\<rparr>"

definition candidate_table :: DocTermTable where
  "candidate_table = \<lparr>doc_names = [(''x'', 0)], feature_names = [''a'', ''b''],
     dtm = [[1, 0]], dtm_dtype = Int64, stbl = True, terms_per_doc = [1], counts = [1, 0],
     internal_scores = [Fin 0]\<rparr>"

definition other_table :: DocTermTable where
  "other_table = \<lparr>doc_names = [(''x'', 0)], feature_names = [''b'', ''c''],
     dtm = [[1, 1]], dtm_dtype = Int64, stbl = True, terms_per_doc = [2], counts = [1, 1],
     internal_scores = [Fin 0]\<rparr>"



section \<open>Properties\<close>

subsection \<open>Supporting lemmas\<close>

lemma exact_bound_ge: "2 ^ 53 \<le> exact_bound dt" "exact_bound dt \<le> 2 ^ 63"
  by (cases dt; simp add: exact_bound_def)+

lemma wrap64_id: "- (2 ^ 63) \<le> x \<Longrightarrow> x < 2 ^ 63 \<Longrightarrow> wrap64 x = x"
  by (simp add: wrap64_def)

lemma wrap64_mod: "wrap64 x mod 2 ^ 64 = x mod 2 ^ 64"
proof -
  have "wrap64 x = (x + 2 ^ 63) mod 2 ^ 64 - 2 ^ 63" by (simp add: wrap64_def)
  then have "wrap64 x mod 2 ^ 64 = ((x + 2 ^ 63) mod 2 ^ 64 - 2 ^ 63) mod 2 ^ 64" by simp
  also have "\<dots> = ((x + 2 ^ 63) - 2 ^ 63) mod 2 ^ 64" by (rule mod_diff_left_eq)
  finally show ?thesis by simp
qed

lemma wrap64_cong: "x mod 2 ^ 64 = y mod 2 ^ 64 \<Longrightarrow> wrap64 x = wrap64 y"
proof -
  assume a: "x mod 2 ^ 64 = y mod 2 ^ 64"
  have "(x + 2 ^ 63) mod 2 ^ 64 = (x mod 2 ^ 64 + 2 ^ 63) mod 2 ^ 64" by (simp add: mod_add_left_eq)
  also have "\<dots> = (y mod 2 ^ 64 + 2 ^ 63) mod 2 ^ 64" using a by simp
  also have "\<dots> = (y + 2 ^ 63) mod 2 ^ 64" by (simp add: mod_add_left_eq)
  finally show ?thesis by (simp add: wrap64_def)
qed

lemma wrap64_add_left: "wrap64 (wrap64 a + x) = wrap64 (a + x)"
proof (rule wrap64_cong)
  have "(wrap64 a + x) mod 2 ^ 64 = (wrap64 a mod 2 ^ 64 + x) mod 2 ^ 64"
    by (simp add: mod_add_left_eq)
  also have "\<dots> = (a mod 2 ^ 64 + x) mod 2 ^ 64" by (simp only: wrap64_mod)
  also have "\<dots> = (a + x) mod 2 ^ 64" by (simp add: mod_add_left_eq)
  finally show "(wrap64 a + x) mod 2 ^ 64 = (a + x) mod 2 ^ 64" .
qed

lemma wrap64_range: "- (2 ^ 63) \<le> wrap64 x" "wrap64 x < 2 ^ 63"
proof -
  have "0 \<le> (x + 2 ^ 63) mod (2 ^ 64 :: int)" "(x + 2 ^ 63) mod (2 ^ 64 :: int) < 2 ^ 64"
    by simp_all
  then show "- (2 ^ 63) \<le> wrap64 x" "wrap64 x < 2 ^ 63" by (simp_all add: wrap64_def)
qed

lemma wrap64_eq_0_iff: "wrap64 x = 0 \<longleftrightarrow> x mod 2 ^ 64 = 0"
proof
  assume "wrap64 x = 0"
  then have "wrap64 x mod 2 ^ 64 = 0" by simp
  then show "x mod 2 ^ 64 = 0" by (simp only: wrap64_mod)
next
  assume "x mod 2 ^ 64 = 0"
  then have "x mod 2 ^ 64 = 0 mod 2 ^ 64" by simp
  then have "wrap64 x = wrap64 0" by (rule wrap64_cong)
  then show "wrap64 x = 0" by (simp add: wrap64_def)
qed

lemma f64_id: "\<bar>x\<bar> < 2 ^ 53 \<Longrightarrow> f64 x = x"
  by (simp add: f64_def)

lemma store_id: "0 \<le> x \<Longrightarrow> x < exact_bound dt \<Longrightarrow> store dt x = x"
  by (cases dt) (simp_all add: store_def exact_bound_def wrap64_id f64_id)

lemma astype_int_id: "0 \<le> x \<Longrightarrow> x < exact_bound dt \<Longrightarrow> astype_int dt x = x"
  by (cases dt) (simp_all add: astype_int_def exact_bound_def cast_int64_def)


lemma foldl_store_exact:
  "\<forall>x\<in>set xs. 0 \<le> x \<Longrightarrow> 0 \<le> a \<Longrightarrow> a + sum_list xs < exact_bound dt \<Longrightarrow>
     foldl (\<lambda>a x. store dt (a + x)) a xs = a + sum_list xs"
proof (induction xs arbitrary: a)
  case Nil
  then show ?case by simp
next
  case (Cons x xs)
  have nn: "0 \<le> sum_list xs" using Cons.prems(1) by (simp add: sum_list_nonneg)
  have "0 \<le> a + x" "a + x < exact_bound dt" using Cons.prems nn by auto
  then have st: "store dt (a + x) = a + x" by (rule store_id)
  have "foldl (\<lambda>a x. store dt (a + x)) (a + x) xs = (a + x) + sum_list xs"
    using Cons.prems by (intro Cons.IH) (auto simp: add.assoc)
  then show ?case using st by (simp add: add.assoc)
qed

lemma np_sum_exact:
  "\<forall>x\<in>set xs. 0 \<le> x \<Longrightarrow> sum_list xs < exact_bound dt \<Longrightarrow> np_sum dt xs = sum_list xs"
  unfolding np_sum_def using foldl_store_exact[of xs 0 dt] by simp

lemma foldl_wrap64:
  "foldl (\<lambda>a x. store Int64 (a + x)) (wrap64 a) xs = wrap64 (a + sum_list xs)"
proof (induction xs arbitrary: a)
  case Nil
  then show ?case by simp
next
  case (Cons x xs)
  have "store Int64 (wrap64 a + x) = wrap64 (a + x)"
    by (simp add: store_def wrap64_add_left)
  then show ?case using Cons.IH[of "a + x"] by (simp add: add.assoc)
qed

lemma np_sum_Int64: "np_sum Int64 xs = wrap64 (sum_list xs)"
proof -
  have "wrap64 0 = 0" by (simp add: wrap64_def)
  then show ?thesis unfolding np_sum_def using foldl_wrap64[of 0 xs] by simp
qed

lemma sum_all_Int64: "sum_all Int64 m = wrap64 (grand_total m)"
proof -
  have "sum_list (map (np_sum Int64) m) mod 2 ^ 64 = sum_list (map sum_list m) mod 2 ^ 64"
  proof (induction m)
    case Nil
    then show ?case by simp
  next
    case (Cons r m)
    have "(np_sum Int64 r + sum_list (map (np_sum Int64) m)) mod 2 ^ 64 =
          (np_sum Int64 r mod 2 ^ 64 + sum_list (map (np_sum Int64) m) mod 2 ^ 64) mod 2 ^ 64"
      by (simp add: mod_add_eq)
    also have "\<dots> = (sum_list r mod 2 ^ 64 + sum_list (map sum_list m) mod 2 ^ 64) mod 2 ^ 64"
    proof -
      have h: "np_sum Int64 r mod 2 ^ 64 = sum_list r mod 2 ^ 64"
        by (simp only: np_sum_Int64 wrap64_mod)
      show ?thesis by (simp only: h Cons.IH)
    qed
    also have "\<dots> = (sum_list r + sum_list (map sum_list m)) mod 2 ^ 64"
      by (simp add: mod_add_eq)
    finally show ?case by simp
  qed
  then show ?thesis
    unfolding sum_all_def grand_total_def by (simp only: np_sum_Int64) (rule wrap64_cong)
qed

lemma length_col_sums [simp]: "length (col_sums dt m) = ncols m"
  by (simp add: col_sums_def)

lemma length_column_totals [simp]: "length (column_totals m) = ncols m"
  by (simp add: column_totals_def)

lemma column_totals_nth:
  "j < ncols m \<Longrightarrow> column_totals m ! j = sum_list (map (\<lambda>r. r ! j) m)"
  by (simp add: column_totals_def)

lemma ncols_rectangular: "rectangular n m \<Longrightarrow> m \<noteq> [] \<Longrightarrow> ncols m = n"
  by (cases m) (simp_all add: rectangular_def ncols_def)

lemma member_le_sum_list_int:
  fixes y :: int
  shows "\<forall>x\<in>set xs. 0 \<le> x \<Longrightarrow> y \<in> set xs \<Longrightarrow> y \<le> sum_list xs"
proof (induction xs)
  case Nil
  then show ?case by simp
next
  case (Cons x xs)
  have "0 \<le> sum_list xs" using Cons.prems(1) by (simp add: sum_list_nonneg)
  then show ?case using Cons by auto
qed

lemma nonnegative_entry:
  "nonnegative m \<Longrightarrow> r \<in> set m \<Longrightarrow> x \<in> set r \<Longrightarrow> 0 \<le> x"
  by (auto simp: nonnegative_def list_all_iff)

lemma row_total_le_grand_total:
  assumes "nonnegative m" "r \<in> set m"
  shows "sum_list r \<le> grand_total m"
proof -
  have "\<forall>x\<in>set (map sum_list m). 0 \<le> x"
    using assms(1) by (auto simp: nonnegative_def list_all_iff intro: sum_list_nonneg)
  moreover have "sum_list r \<in> set (map sum_list m)" using assms(2) by auto
  ultimately show ?thesis unfolding grand_total_def by (rule member_le_sum_list_int)
qed

lemma entry_le_grand_total:
  assumes "nonnegative m" "r \<in> set m" "x \<in> set r"
  shows "x \<le> grand_total m"
proof -
  have "\<forall>y\<in>set r. 0 \<le> y" using assms(1,2) by (auto intro: nonnegative_entry)
  then have "x \<le> sum_list r" using assms(3) by (rule member_le_sum_list_int)
  then show ?thesis using row_total_le_grand_total[OF assms(1,2)] by simp
qed

lemma column_total_le_grand_total:
  assumes "nonnegative m" "rectangular n m" "j < n"
  shows "sum_list (map (\<lambda>r. r ! j) m) \<le> grand_total m"
proof -
  have "\<And>r. r \<in> set m \<Longrightarrow> r ! j \<le> sum_list r"
  proof -
    fix r assume r: "r \<in> set m"
    then have "length r = n" using assms(2) by (simp add: rectangular_def list_all_iff)
    then have "r ! j \<in> set r" using assms(3) by simp
    moreover have "\<forall>y\<in>set r. 0 \<le> y" using assms(1) r by (auto intro: nonnegative_entry)
    ultimately show "r ! j \<le> sum_list r" by (intro member_le_sum_list_int)
  qed
  then show ?thesis unfolding grand_total_def by (intro sum_list_mono) simp
qed

lemma column_entries_nonneg:
  assumes "nonnegative m" "rectangular n m" "j < n"
  shows "\<forall>x\<in>set (map (\<lambda>r. r ! j) m). 0 \<le> x"
  using assms by (auto simp: nonnegative_def rectangular_def list_all_iff)

lemma col_sums_exact:
  assumes "nonnegative m" "rectangular n m" "grand_total m < exact_bound dt"
  shows "col_sums dt m = column_totals m"
proof (cases "m = []")
  case True
  then show ?thesis by (simp add: col_sums_def column_totals_def ncols_def)
next
  case False
  then have nc: "ncols m = n" using assms(2) by (simp add: ncols_rectangular)
  have "\<And>j. j < n \<Longrightarrow> np_sum dt (map (\<lambda>r. r ! j) m) = sum_list (map (\<lambda>r. r ! j) m)"
  proof -
    fix j assume j: "j < n"
    show "np_sum dt (map (\<lambda>r. r ! j) m) = sum_list (map (\<lambda>r. r ! j) m)"
      using column_entries_nonneg[OF assms(1,2) j] column_total_le_grand_total[OF assms(1,2) j]
        assms(3) by (intro np_sum_exact) auto
  qed
  then show ?thesis by (simp add: col_sums_def column_totals_def nc)
qed

lemma row_sums_exact:
  assumes "nonnegative m" "grand_total m < exact_bound dt"
  shows "row_sums dt m = map sum_list m"
proof -
  have "\<And>r. r \<in> set m \<Longrightarrow> np_sum dt r = sum_list r"
  proof -
    fix r assume r: "r \<in> set m"
    have "\<forall>y\<in>set r. 0 \<le> y" using assms(1) r by (auto intro: nonnegative_entry)
    then show "np_sum dt r = sum_list r"
      using row_total_le_grand_total[OF assms(1) r] assms(2) by (intro np_sum_exact) auto
  qed
  then show ?thesis by (simp add: row_sums_def)
qed

lemma sum_all_exact:
  assumes "nonnegative m" "grand_total m < exact_bound dt"
  shows "sum_all dt m = grand_total m"
proof -
  have "map (np_sum dt) m = map sum_list m"
    using row_sums_exact[OF assms] by (simp add: row_sums_def)
  moreover have "\<forall>x\<in>set (map sum_list m). 0 \<le> x"
    using assms(1) by (auto simp: nonnegative_def list_all_iff intro: sum_list_nonneg)
  ultimately have "np_sum dt (map (np_sum dt) m) = sum_list (map sum_list m)"
    using assms(2) unfolding grand_total_def by (simp only: np_sum_exact)
  then show ?thesis by (simp add: sum_all_def grand_total_def)
qed

lemma column_totals_nonneg:
  assumes "nonnegative m" "rectangular n m" "x \<in> set (column_totals m)"
  shows "0 \<le> x" "x \<le> grand_total m"
proof -
  from assms(3) obtain j where j: "j < ncols m" "x = sum_list (map (\<lambda>r. r ! j) m)"
    by (auto simp: column_totals_def)
  then have ne: "m \<noteq> []" by (auto simp: ncols_def)
  then have jn: "j < n" using j(1) assms(2) by (simp add: ncols_rectangular)
  show "0 \<le> x" unfolding j(2)
    using column_entries_nonneg[OF assms(1,2) jn] by (intro sum_list_nonneg) auto
  show "x \<le> grand_total m" using column_total_le_grand_total[OF assms(1,2) jn] j(2) by simp
qed

lemma row_le_column_totals:
  assumes "nonnegative m" "rectangular n m" "r \<in> set m" "j < n"
  shows "r ! j \<le> column_totals m ! j"
proof -
  have ne: "m \<noteq> []" using assms(3) by auto
  have nc: "ncols m = n" using assms(2) ne by (rule ncols_rectangular)
  have "r ! j \<in> set (map (\<lambda>r. r ! j) m)" using assms(3) by auto
  then have "r ! j \<le> sum_list (map (\<lambda>r. r ! j) m)"
    using column_entries_nonneg[OF assms(1,2,4)] by (intro member_le_sum_list_int)
  then show ?thesis using nc assms(4) by (simp add: column_totals_nth)
qed

lemma any_negative_iff: "any_negative v \<longleftrightarrow> (\<exists>i<length v. v ! i < 0)"
  unfolding any_negative_def list_ex_iff by (metis in_set_conv_nth)

lemma loop_fields:
  "\<exists>sc. fst (internal_scores_loop E t rows) = t\<lparr>internal_scores := sc\<rparr>"
proof (induction rows arbitrary: t)
  case Nil
  have "t = t\<lparr>internal_scores := internal_scores t\<rparr>" by simp
  then show ?case by (metis internal_scores_loop.simps(1) fst_conv)
next
  case (Cons row rows)
  show ?case
  proof (cases "priv_get_Pvals E t (map (astype_int (dtm_dtype t)) row) True")
    case (Inl e)
    have "t = t\<lparr>internal_scores := internal_scores t\<rparr>" by simp
    then show ?thesis using Inl by (metis internal_scores_loop.simps(2) fst_conv sum.simps(5))
  next
    case (Inr pv)
    obtain sc where "fst (internal_scores_loop E
            (t\<lparr>internal_scores :=
               internal_scores t @ [fst (hc_vals E pv (stbl t) (Some (45 / 100)))]\<rparr>) rows) =
            t\<lparr>internal_scores :=
               internal_scores t @ [fst (hc_vals E pv (stbl t) (Some (45 / 100)))]\<rparr>\<lparr>internal_scores := sc\<rparr>"
      using Cons.IH by blast
    then show ?thesis using Inr by auto
  qed
qed

lemma loop_error:
  "snd (internal_scores_loop E t rows) = Some e \<Longrightarrow> e = AssertionError \<or> e = ValueError_within"
proof (induction rows arbitrary: t)
  case Nil
  then show ?case by simp
next
  case (Cons row rows)
  then show ?case
    by (auto simp: priv_get_Pvals_def Let_def split: sum.splits if_splits)
qed

lemma loop_success_length:
  "internal_scores_loop E t rows = (t', None) \<Longrightarrow>
     length (internal_scores t') = length (internal_scores t) + length rows"
proof (induction rows arbitrary: t)
  case Nil
  then show ?case by simp
next
  case (Cons row rows)
  then show ?case by (auto split: sum.splits)
qed

lemma priv_get_Pvals_cong:
  "counts a = counts b \<Longrightarrow> priv_get_Pvals E a cnts w = priv_get_Pvals E b cnts w"
  by (simp add: priv_get_Pvals_def)

lemma loop_cong:
  assumes "counts a = counts b" "stbl a = stbl b" "dtm_dtype a = dtm_dtype b"
    "internal_scores a = internal_scores b"
  shows "snd (internal_scores_loop E a rows) = snd (internal_scores_loop E b rows) \<and>
         internal_scores (fst (internal_scores_loop E a rows)) =
         internal_scores (fst (internal_scores_loop E b rows))"
  using assms
proof (induction rows arbitrary: a b)
  case Nil
  then show ?case by simp
next
  case (Cons row rows)
  have pv: "priv_get_Pvals E a (map (astype_int (dtm_dtype a)) row) True =
            priv_get_Pvals E b (map (astype_int (dtm_dtype b)) row) True"
    using Cons.prems by (simp add: priv_get_Pvals_cong[of a b])
  show ?case
  proof (cases "priv_get_Pvals E b (map (astype_int (dtm_dtype b)) row) True")
    case (Inl e)
    then show ?thesis using pv Cons.prems by simp
  next
    case (Inr p)
    let ?a = "a\<lparr>internal_scores := internal_scores a @ [fst (hc_vals E p (stbl a) (Some (45 / 100)))]\<rparr>"
    let ?b = "b\<lparr>internal_scores := internal_scores b @ [fst (hc_vals E p (stbl b) (Some (45 / 100)))]\<rparr>"
    have "snd (internal_scores_loop E ?a rows) = snd (internal_scores_loop E ?b rows) \<and>
         internal_scores (fst (internal_scores_loop E ?a rows)) =
         internal_scores (fst (internal_scores_loop E ?b rows))"
      using Cons.prems by (intro Cons.IH) simp_all
    then show ?thesis using pv Inr by simp
  qed
qed

lemma loop_ok:
  assumes "\<forall>r\<in>set rows. length r = length (counts t) \<and>
             \<not> any_negative (map2 sub64 (counts t) (map (astype_int (dtm_dtype t)) r))"
  shows "internal_scores_loop E t rows =
     (t\<lparr>internal_scores := internal_scores t @
          map (\<lambda>r. fst (hc_vals E
                          (two_counts_pvals E (map (astype_int (dtm_dtype t)) r)
                             (map2 sub64 (counts t) (map (astype_int (dtm_dtype t)) r)))
                          (stbl t) (Some (45 / 100)))) rows\<rparr>, None)"
  using assms
proof (induction rows arbitrary: t)
  case Nil
  then show ?case by simp
next
  case (Cons row rows)
  let ?c = "map (astype_int (dtm_dtype t)) row"
  have pv: "priv_get_Pvals E t ?c True = Inr (two_counts_pvals E ?c (map2 sub64 (counts t) ?c))"
    using Cons.prems by (simp add: priv_get_Pvals_def Let_def)
  let ?t1 = "t\<lparr>internal_scores := internal_scores t @
      [fst (hc_vals E (two_counts_pvals E ?c (map2 sub64 (counts t) ?c)) (stbl t) (Some (45 / 100)))]\<rparr>"
  have "\<forall>r\<in>set rows. length r = length (counts ?t1) \<and>
          \<not> any_negative (map2 sub64 (counts ?t1) (map (astype_int (dtm_dtype ?t1)) r))"
    using Cons.prems by simp
  from Cons.IH[OF this] show ?case using pv by simp
qed

lemma compute_fields:
  "\<exists>sc. fst (priv_compute_internal_stat E t) =
     t\<lparr>terms_per_doc := map (astype_int (dtm_dtype t)) (row_sums (dtm_dtype t) (dtm t)),
       counts := map (astype_int (dtm_dtype t)) (col_sums (dtm_dtype t) (dtm t)),
       internal_scores := sc\<rparr>"
proof -
  obtain sc where "fst (priv_compute_internal_stat E t) =
     t\<lparr>terms_per_doc := map (astype_int (dtm_dtype t)) (row_sums (dtm_dtype t) (dtm t)),
       counts := map (astype_int (dtm_dtype t)) (col_sums (dtm_dtype t) (dtm t)),
       internal_scores := []\<rparr>
      \<lparr>internal_scores := sc\<rparr>"
    unfolding priv_compute_internal_stat_def using loop_fields by blast
  then show ?thesis by auto
qed

lemma compute_error:
  "snd (priv_compute_internal_stat E t) = Some e \<Longrightarrow> e = AssertionError \<or> e = ValueError_within"
  unfolding priv_compute_internal_stat_def by (rule loop_error)

lemma compute_success_length:
  "priv_compute_internal_stat E t = (t', None) \<Longrightarrow> length (internal_scores t') = length (dtm t)"
  unfolding priv_compute_internal_stat_def by (drule loop_success_length) simp

lemma compute_cong:
  assumes "dtm a = dtm b" "dtm_dtype a = dtm_dtype b" "stbl a = stbl b"
  shows "snd (priv_compute_internal_stat E a) = snd (priv_compute_internal_stat E b) \<and>
         internal_scores (fst (priv_compute_internal_stat E a)) =
         internal_scores (fst (priv_compute_internal_stat E b)) \<and>
         counts (fst (priv_compute_internal_stat E a)) = counts (fst (priv_compute_internal_stat E b))"
proof -
  let ?a = "a\<lparr>terms_per_doc := map (astype_int (dtm_dtype a)) (row_sums (dtm_dtype a) (dtm a)),
       counts := map (astype_int (dtm_dtype a)) (col_sums (dtm_dtype a) (dtm a)),
       internal_scores := []\<rparr>"
  let ?b = "b\<lparr>terms_per_doc := map (astype_int (dtm_dtype b)) (row_sums (dtm_dtype b) (dtm b)),
       counts := map (astype_int (dtm_dtype b)) (col_sums (dtm_dtype b) (dtm b)),
       internal_scores := []\<rparr>"
  have l: "snd (internal_scores_loop E ?a (dtm b)) = snd (internal_scores_loop E ?b (dtm b)) \<and>
         internal_scores (fst (internal_scores_loop E ?a (dtm b))) =
         internal_scores (fst (internal_scores_loop E ?b (dtm b)))"
    using assms by (intro loop_cong) simp_all
  obtain sa where sa: "fst (priv_compute_internal_stat E a) =
     a\<lparr>terms_per_doc := map (astype_int (dtm_dtype a)) (row_sums (dtm_dtype a) (dtm a)),
       counts := map (astype_int (dtm_dtype a)) (col_sums (dtm_dtype a) (dtm a)),
       internal_scores := sa\<rparr>" using compute_fields by blast
  obtain sb where sb: "fst (priv_compute_internal_stat E b) =
     b\<lparr>terms_per_doc := map (astype_int (dtm_dtype b)) (row_sums (dtm_dtype b) (dtm b)),
       counts := map (astype_int (dtm_dtype b)) (col_sums (dtm_dtype b) (dtm b)),
       internal_scores := sb\<rparr>" using compute_fields by blast
  have "counts (fst (priv_compute_internal_stat E a)) = counts (fst (priv_compute_internal_stat E b))"
    using assms by (simp add: sa sb)
  then show ?thesis using l assms(1) by (simp add: priv_compute_internal_stat_def)
qed

lemma compute_idem:
  assumes "priv_compute_internal_stat E t0 = (t, None)"
  shows "priv_compute_internal_stat E t = (t, None)"
proof -
  obtain sc where t: "t = t0\<lparr>terms_per_doc := map (astype_int (dtm_dtype t0)) (row_sums (dtm_dtype t0) (dtm t0)),
       counts := map (astype_int (dtm_dtype t0)) (col_sums (dtm_dtype t0) (dtm t0)),
       internal_scores := sc\<rparr>"
    using compute_fields[of E t0] assms by auto
  have sel: "dtm t = dtm t0" "dtm_dtype t = dtm_dtype t0" by (subst t, simp)+
  have "t\<lparr>terms_per_doc := A, counts := B, internal_scores := []\<rparr> =
        t0\<lparr>terms_per_doc := A, counts := B, internal_scores := []\<rparr>" for A B
    by (subst t) simp
  then have "t\<lparr>terms_per_doc := map (astype_int (dtm_dtype t)) (row_sums (dtm_dtype t) (dtm t)),
          counts := map (astype_int (dtm_dtype t)) (col_sums (dtm_dtype t) (dtm t)),
          internal_scores := []\<rparr> =
        t0\<lparr>terms_per_doc := map (astype_int (dtm_dtype t0)) (row_sums (dtm_dtype t0) (dtm t0)),
          counts := map (astype_int (dtm_dtype t0)) (col_sums (dtm_dtype t0) (dtm t0)),
          internal_scores := []\<rparr>"
    by (simp only: sel)
  moreover note sel(1)
  ultimately show ?thesis using assms unfolding priv_compute_internal_stat_def by simp
qed

lemma map_astype_int_id:
  assumes "\<forall>x\<in>set xs. 0 \<le> x \<and> x < exact_bound dt"
  shows "map (astype_int dt) xs = xs"
  using assms by (induction xs) (simp_all add: astype_int_id)

lemma counts_exact:
  assumes "nonnegative m" "rectangular n m" "grand_total m < exact_bound dt"
  shows "map (astype_int dt) (col_sums dt m) = column_totals m"
proof -
  have "\<forall>x\<in>set (column_totals m). 0 \<le> x \<and> x < exact_bound dt"
    using column_totals_nonneg[OF assms(1,2)] assms(3) by fastforce
  then have "map (astype_int dt) (column_totals m) = column_totals m"
    by (rule map_astype_int_id)
  then show ?thesis by (simp only: col_sums_exact[OF assms])
qed

lemma terms_exact:
  assumes "nonnegative m" "grand_total m < exact_bound dt"
  shows "map (astype_int dt) (row_sums dt m) = map sum_list m"
proof -
  have "\<forall>x\<in>set (map sum_list m). 0 \<le> x \<and> x < exact_bound dt"
  proof
    fix x assume "x \<in> set (map sum_list m)"
    then obtain r where r: "r \<in> set m" "x = sum_list r" by auto
    have "\<forall>y\<in>set r. 0 \<le> y" using assms(1) r(1) by (auto intro: nonnegative_entry)
    then have "0 \<le> x" using r(2) by (simp add: sum_list_nonneg)
    then show "0 \<le> x \<and> x < exact_bound dt"
      using row_total_le_grand_total[OF assms(1) r(1)] r(2) assms(2) by simp
  qed
  then have "map (astype_int dt) (map sum_list m) = map sum_list m"
    by (rule map_astype_int_id)
  then show ?thesis by (simp only: row_sums_exact[OF assms])
qed

lemma row_cast_exact:
  assumes "nonnegative m" "grand_total m < exact_bound dt" "r \<in> set m"
  shows "map (astype_int dt) r = r"
proof -
  have "\<forall>x\<in>set r. 0 \<le> x \<and> x < exact_bound dt"
    using nonnegative_entry[OF assms(1,3)] entry_le_grand_total[OF assms(1,3)] assms(2)
    by fastforce
  then show ?thesis by (rule map_astype_int_id)
qed

lemma rest_exact:
  assumes "nonnegative m" "rectangular n m" "grand_total m < exact_bound dt" "r \<in> set m"
  shows "map2 sub64 (column_totals m) r = map2 (\<lambda>x y. x - y) (column_totals m) r"
    and "\<not> any_negative (map2 sub64 (column_totals m) r)"
proof -
  have ne: "m \<noteq> []" using assms(4) by auto
  have nc: "ncols m = n" using assms(2) ne by (rule ncols_rectangular)
  have len: "length r = n" using assms(2,4) by (simp add: rectangular_def list_all_iff)
  have ex: "\<And>j. j < n \<Longrightarrow> sub64 (column_totals m ! j) (r ! j) = column_totals m ! j - r ! j \<and>
                0 \<le> column_totals m ! j - r ! j"
  proof -
    fix j assume j: "j < n"
    have a: "r ! j \<le> column_totals m ! j" using row_le_column_totals[OF assms(1,2,4) j] .
    have "r ! j \<in> set r" using j len by simp
    then have b: "0 \<le> r ! j" using nonnegative_entry[OF assms(1,4)] by simp
    have "column_totals m ! j \<in> set (column_totals m)" using j nc by simp
    then have "column_totals m ! j \<le> grand_total m"
      using column_totals_nonneg(2)[OF assms(1,2)] by simp
    then have c: "column_totals m ! j < 2 ^ 63"
      using assms(3) exact_bound_ge(2)[of dt] by simp
    show "sub64 (column_totals m ! j) (r ! j) = column_totals m ! j - r ! j \<and>
                0 \<le> column_totals m ! j - r ! j"
      using a b c by (simp add: sub64_def wrap64_id)
  qed
  show e: "map2 sub64 (column_totals m) r = map2 (\<lambda>x y. x - y) (column_totals m) r"
    by (rule nth_equalityI) (simp_all add: nc len ex)
  have "\<forall>i<length (map2 (\<lambda>x y. x - y) (column_totals m) r).
          \<not> map2 (\<lambda>x y. x - y) (column_totals m) r ! i < 0"
    using ex by (simp add: nc len not_less)
  then show "\<not> any_negative (map2 sub64 (column_totals m) r)"
    unfolding e any_negative_iff by blast
qed

lemma compute_ok:
  assumes "rectangular n (dtm t)" "nonnegative (dtm t)"
    "grand_total (dtm t) < exact_bound (dtm_dtype t)"
  shows "priv_compute_internal_stat E t =
     (t\<lparr>terms_per_doc := map sum_list (dtm t), counts := column_totals (dtm t),
        internal_scores :=
          map (\<lambda>r. fst (hc_vals E (two_counts_pvals E r (map2 (\<lambda>x y. x - y) (column_totals (dtm t)) r))
                          (stbl t) (Some (45 / 100)))) (dtm t)\<rparr>, None)"
proof -
  let ?dt = "dtm_dtype t"
  let ?m = "dtm t"
  let ?t1 = "t\<lparr>terms_per_doc := map sum_list ?m, counts := column_totals ?m, internal_scores := []\<rparr>"
  have start: "t\<lparr>terms_per_doc := map (astype_int ?dt) (row_sums ?dt ?m),
             counts := map (astype_int ?dt) (col_sums ?dt ?m), internal_scores := []\<rparr> = ?t1"
    using counts_exact[OF assms(2,1,3)] terms_exact[OF assms(2,3)] by simp
  have hyp: "\<forall>r\<in>set ?m. length r = length (counts ?t1) \<and>
          \<not> any_negative (map2 sub64 (counts ?t1) (map (astype_int (dtm_dtype ?t1)) r))"
  proof
    fix r assume r: "r \<in> set ?m"
    then have ne: "?m \<noteq> []" by auto
    have len: "length r = n" using r assms(1) by (simp add: rectangular_def list_all_iff)
    have nc: "ncols ?m = n" using assms(1) ne by (rule ncols_rectangular)
    show "length r = length (counts ?t1) \<and>
          \<not> any_negative (map2 sub64 (counts ?t1) (map (astype_int (dtm_dtype ?t1)) r))"
      using len nc row_cast_exact[OF assms(2,3) r] rest_exact(2)[OF assms(2,1,3) r] by simp
  qed
  have scores: "map (\<lambda>r. fst (hc_vals E
                          (two_counts_pvals E (map (astype_int (dtm_dtype ?t1)) r)
                             (map2 sub64 (counts ?t1) (map (astype_int (dtm_dtype ?t1)) r)))
                          (stbl ?t1) (Some (45 / 100)))) ?m =
        map (\<lambda>r. fst (hc_vals E (two_counts_pvals E r (map2 (\<lambda>x y. x - y) (column_totals ?m) r))
                          (stbl t) (Some (45 / 100)))) ?m"
  proof (rule map_cong[OF refl])
    fix r assume r: "r \<in> set ?m"
    show "fst (hc_vals E
                          (two_counts_pvals E (map (astype_int (dtm_dtype ?t1)) r)
                             (map2 sub64 (counts ?t1) (map (astype_int (dtm_dtype ?t1)) r)))
                          (stbl ?t1) (Some (45 / 100))) =
          fst (hc_vals E (two_counts_pvals E r (map2 (\<lambda>x y. x - y) (column_totals ?m) r))
                          (stbl t) (Some (45 / 100)))"
    proof -
      have sel: "counts ?t1 = column_totals ?m" "dtm_dtype ?t1 = ?dt" "stbl ?t1 = stbl t"
        by simp_all
      show ?thesis
        by (simp only: sel row_cast_exact[OF assms(2,3) r] rest_exact(1)[OF assms(2,1,3) r])
    qed
  qed
  have "internal_scores_loop E ?t1 ?m =
     (?t1\<lparr>internal_scores := internal_scores ?t1 @
          map (\<lambda>r. fst (hc_vals E
                          (two_counts_pvals E (map (astype_int (dtm_dtype ?t1)) r)
                             (map2 sub64 (counts ?t1) (map (astype_int (dtm_dtype ?t1)) r)))
                          (stbl ?t1) (Some (45 / 100)))) ?m\<rparr>, None)"
    using hyp by (rule loop_ok)
  then have "internal_scores_loop E ?t1 ?m =
     (?t1\<lparr>internal_scores :=
          map (\<lambda>r. fst (hc_vals E (two_counts_pvals E r (map2 (\<lambda>x y. x - y) (column_totals ?m) r))
                          (stbl t) (Some (45 / 100)))) ?m\<rparr>, None)"
    by (simp only: scores) simp
  then show ?thesis
    unfolding priv_compute_internal_stat_def by (simp only: start) simp
qed

lemma astype_int_Int64 [simp]: "astype_int Int64 = (\<lambda>x. x)"
  by (rule ext) (simp add: astype_int_def)

lemma init_attributes_sel [simp]:
  "dtm (init_attributes dt m fn dn st) = m"
  "dtm_dtype (init_attributes dt m fn dn st) = dt"
  "feature_names (init_attributes dt m fn dn st) = fn"
  "stbl (init_attributes dt m fn dn st) = st"
  by (simp_all add: init_attributes_def Let_def)

lemma init_with_dtype_all_zero_iff:
  "init_with_dtype E dt m fn dn st = Inl ValueError_all_zero \<longleftrightarrow> sum_all dt m = 0"
proof
  assume a: "init_with_dtype E dt m fn dn st = Inl ValueError_all_zero"
  show "sum_all dt m = 0"
  proof (rule ccontr)
    assume "sum_all dt m \<noteq> 0"
    with a have "snd (priv_compute_internal_stat E (init_attributes dt m fn dn st)) =
                   Some ValueError_all_zero"
      by (auto simp: init_with_dtype_def Let_def split: prod.splits option.splits)
    from compute_error[OF this] show False by simp
  qed
next
  assume "sum_all dt m = 0"
  then show "init_with_dtype E dt m fn dn st = Inl ValueError_all_zero"
    by (simp add: init_with_dtype_def Let_def)
qed

lemma init_with_dtype_Inr:
  assumes "init_with_dtype E dt m fn dn st = Inr t"
  shows "dtm t = m" "dtm_dtype t = dt" "feature_names t = fn" "stbl t = st"
    "counts t = map (astype_int dt) (col_sums dt m)"
    "length (internal_scores t) = length m"
    "priv_compute_internal_stat E t = (t, None)" "sum_all dt m \<noteq> 0"
    "priv_compute_internal_stat E (init_attributes dt m fn dn st) = (t, None)"
proof -
  let ?s = "init_attributes dt m fn dn st"
  from assms show c: "priv_compute_internal_stat E ?s = (t, None)" and nz: "sum_all dt m \<noteq> 0"
    by (auto simp: init_with_dtype_def Let_def split: prod.splits option.splits if_splits)
  obtain sc where t: "t = ?s\<lparr>terms_per_doc := map (astype_int (dtm_dtype ?s)) (row_sums (dtm_dtype ?s) (dtm ?s)),
       counts := map (astype_int (dtm_dtype ?s)) (col_sums (dtm_dtype ?s) (dtm ?s)),
       internal_scores := sc\<rparr>"
    using compute_fields[of E ?s] c by auto
  show "dtm t = m" "dtm_dtype t = dt" "feature_names t = fn" "stbl t = st"
    "counts t = map (astype_int dt) (col_sums dt m)"
    by (subst t, simp)+
  show "length (internal_scores t) = length m"
    using compute_success_length[OF c] by simp
  show "priv_compute_internal_stat E t = (t, None)" using c by (rule compute_idem)
qed

lemma init_with_dtype_ok:
  assumes "sum_all dt m \<noteq> 0" "rectangular n m" "nonnegative m" "grand_total m < exact_bound dt"
  shows "\<exists>t. init_with_dtype E dt m fn dn st = Inr t"
proof -
  let ?s = "init_attributes dt m fn dn st"
  have "rectangular n (dtm ?s)" "nonnegative (dtm ?s)" "grand_total (dtm ?s) < exact_bound (dtm_dtype ?s)"
    using assms by simp_all
  from compute_ok[OF this, of E] have "snd (priv_compute_internal_stat E ?s) = None" by simp
  then show ?thesis using assms(1)
    by (auto simp: init_with_dtype_def Let_def split: prod.splits option.splits)
qed

lemma init_all_zero_iff:
  "DocTermTable_init E m fn dn st = Inl ValueError_all_zero \<longleftrightarrow> grand_total m mod 2 ^ 64 = 0"
  by (simp add: DocTermTable_init_def init_with_dtype_all_zero_iff sum_all_Int64 wrap64_eq_0_iff)

lemma init_Inr:
  assumes "DocTermTable_init E m fn dn st = Inr t"
  shows "dtm t = m" "dtm_dtype t = Int64" "feature_names t = fn" "stbl t = st"
    "counts t = col_sums Int64 m"
    "length (internal_scores t) = length m"
    "priv_compute_internal_stat E t = (t, None)"
  using init_with_dtype_Inr[OF assms[unfolded DocTermTable_init_def]]
  by simp_all

lemma init_ok:
  assumes "0 < grand_total m" "grand_total m < 2 ^ 63" "rectangular n m" "nonnegative m"
  shows "\<exists>t. DocTermTable_init E m fn dn st = Inr t"
proof -
  have b: "grand_total m < exact_bound Int64" using assms(2) by (simp add: exact_bound_def)
  have "sum_all Int64 m = grand_total m" using sum_all_exact[OF assms(4) b] .
  then have "sum_all Int64 m \<noteq> 0" using assms(1) by simp
  then show ?thesis
    unfolding DocTermTable_init_def using assms(3,4) b by (rule init_with_dtype_ok)
qed

lemmas eval_numpy_defs =
  np_sum_def store_def wrap64_def astype_int_def cast_int64_def as_dtype_def promote_def
  sub64_def f64_def sum_all_def row_sums_def col_sums_def ncols_def any_negative_def

lemmas eval_defs =
  DocTermTable_init_def init_with_dtype_def init_attributes_def priv_compute_internal_stat_def
  priv_get_Pvals_def toy_aux_def Let_def py_dict_def str_nat.simps digit_char_def

lemma corpus_table_init:
  "DocTermTable_init toy_aux [[2, 0], [0, 2]] [''a'', ''b''] [] True = Inr corpus_table"
  by (simp add: eval_defs eval_numpy_defs corpus_table_def)

lemma candidate_table_init:
  "DocTermTable_init toy_aux [[1, 0]] [''a'', ''b''] [''x''] True = Inr candidate_table"
  by (simp add: eval_defs eval_numpy_defs candidate_table_def)

lemma other_table_init:
  "DocTermTable_init toy_aux [[1, 1]] [''b'', ''c''] [''x''] True = Inr other_table"
  by (simp add: eval_defs eval_numpy_defs other_table_def)

lemma up_to_date_init: "DocTermTable_init E m fn dn st = Inr t \<Longrightarrow> up_to_date E t"
  unfolding up_to_date_def by (rule init_Inr(7))

lemma up_to_date_init_with_dtype: "init_with_dtype E dt m fn dn st = Inr t \<Longrightarrow> up_to_date E t"
  unfolding up_to_date_def by (rule init_with_dtype_Inr(7))

lemma up_to_date_fields:
  assumes "up_to_date E t"
  shows "counts t = map (astype_int (dtm_dtype t)) (col_sums (dtm_dtype t) (dtm t))"
    "terms_per_doc t = map (astype_int (dtm_dtype t)) (row_sums (dtm_dtype t) (dtm t))"
    "length (internal_scores t) = length (dtm t)"
proof -
  have c: "priv_compute_internal_stat E t = (t, None)" using assms by (simp add: up_to_date_def)
  obtain sc where t: "t = t\<lparr>terms_per_doc := map (astype_int (dtm_dtype t)) (row_sums (dtm_dtype t) (dtm t)),
       counts := map (astype_int (dtm_dtype t)) (col_sums (dtm_dtype t) (dtm t)),
       internal_scores := sc\<rparr>"
    using compute_fields[of E t] c by auto
  show "counts t = map (astype_int (dtm_dtype t)) (col_sums (dtm_dtype t) (dtm t))"
    by (subst t) simp
  show "terms_per_doc t = map (astype_int (dtm_dtype t)) (row_sums (dtm_dtype t) (dtm t))"
    by (subst t) simp
  show "length (internal_scores t) = length (dtm t)" using compute_success_length[OF c] .
qed


lemma up_to_date_change_vocabulary:
  "change_vocabulary E t v = (t', None) \<Longrightarrow> up_to_date E t'"
  unfolding up_to_date_def change_vocabulary_def Let_def by (rule compute_idem)

lemma init_cache_length:
  "DocTermTable_init E m fn dn st = Inr t \<Longrightarrow> length (internal_scores t) = length m"
  by (rule init_Inr(6))

lemma rank_among_spec:
  "scores \<noteq> [] \<Longrightarrow> rank_among scores hc w = spec_rank scores hc w"
  by (cases w) (auto simp: rank_among_def spec_rank_def np_true_divide_def Let_def)

lemma rank_among_empty: "rank_among [] hc w = NaN"
  by (simp add: rank_among_def)

lemmas eval_rank_defs =
  get_HC_rank_features_def candidate_score_def get_Pvals_def priv_get_Pvals_def
  select_features_def rank_among_def np_true_divide_def spec_rank_def toy_aux_def
  corpus_table_def candidate_table_def other_table_def any_negative_def Let_def
  sub64_def wrap64_def

lemma sub64_exact: "- (2 ^ 63) \<le> x - y \<Longrightarrow> x - y < 2 ^ 63 \<Longrightarrow> sub64 x y = x - y"
  by (simp add: sub64_def wrap64_id)

lemma as_dtype_to_Int64 [simp]: "as_dtype da Int64 = (\<lambda>x. x)"
  by (rule ext) (simp add: as_dtype_def)

lemma as_dtype_from_Float64 [simp]: "as_dtype Float64 dt = (\<lambda>x. x)"
  by (rule ext) (simp add: as_dtype_def)

lemma np_sub_same_length:
  "length a = length b \<Longrightarrow> np_sub a b = Inr (map2 sub64 a b)"
proof -
  have "(\<lambda>x y. store Int64 (x - y)) = sub64"
    by (intro ext) (simp add: store_def sub64_def)
  then show "length a = length b \<Longrightarrow> np_sub a b = Inr (map2 sub64 a b)"
    by (simp add: np_sub_def np_binop_def promote_def Let_def)
qed



lemma change_vocabulary_fields:
  "\<exists>sc tp. fst (change_vocabulary E d v) =
     d\<lparr>dtm := map (realign_row (dtm_dtype d) (feature_names d) v) (dtm d), dtm_dtype := Float64,
       feature_names := v, terms_per_doc := tp,
       counts := map cast_int64
                   (col_sums Float64 (map (realign_row (dtm_dtype d) (feature_names d) v) (dtm d))),
       internal_scores := sc\<rparr>"
proof -
  let ?d = "d\<lparr>dtm := map (realign_row (dtm_dtype d) (feature_names d) v) (dtm d),
               dtm_dtype := Float64, feature_names := v\<rparr>"
  obtain sc where "fst (priv_compute_internal_stat E ?d) =
     ?d\<lparr>terms_per_doc := map (astype_int (dtm_dtype ?d)) (row_sums (dtm_dtype ?d) (dtm ?d)),
        counts := map (astype_int (dtm_dtype ?d)) (col_sums (dtm_dtype ?d) (dtm ?d)),
        internal_scores := sc\<rparr>"
    using compute_fields by blast
  then have "fst (change_vocabulary E d v) =
     d\<lparr>dtm := map (realign_row (dtm_dtype d) (feature_names d) v) (dtm d), dtm_dtype := Float64,
       feature_names := v,
       terms_per_doc := map (astype_int Float64)
          (row_sums Float64 (map (realign_row (dtm_dtype d) (feature_names d) v) (dtm d))),
       counts := map cast_int64
                   (col_sums Float64 (map (realign_row (dtm_dtype d) (feature_names d) v) (dtm d))),
       internal_scores := sc\<rparr>"
    by (simp add: change_vocabulary_def Let_def astype_int_def)
  then show ?thesis by blast
qed

lemma change_vocabulary_sel:
  "feature_names (fst (change_vocabulary E d v)) = v"
  "dtm (fst (change_vocabulary E d v)) = map (realign_row (dtm_dtype d) (feature_names d) v) (dtm d)"
  "dtm_dtype (fst (change_vocabulary E d v)) = Float64"
  "counts (fst (change_vocabulary E d v)) =
     map cast_int64 (col_sums Float64 (map (realign_row (dtm_dtype d) (feature_names d) v) (dtm d)))"
  "doc_names (fst (change_vocabulary E d v)) = doc_names d"
  "stbl (fst (change_vocabulary E d v)) = stbl d"
proof -
  obtain sc tp where e: "fst (change_vocabulary E d v) =
     d\<lparr>dtm := map (realign_row (dtm_dtype d) (feature_names d) v) (dtm d), dtm_dtype := Float64,
       feature_names := v, terms_per_doc := tp,
       counts := map cast_int64
                   (col_sums Float64 (map (realign_row (dtm_dtype d) (feature_names d) v) (dtm d))),
       internal_scores := sc\<rparr>"
    using change_vocabulary_fields by blast
  show "feature_names (fst (change_vocabulary E d v)) = v"
    "dtm (fst (change_vocabulary E d v)) = map (realign_row (dtm_dtype d) (feature_names d) v) (dtm d)"
    "dtm_dtype (fst (change_vocabulary E d v)) = Float64"
    "counts (fst (change_vocabulary E d v)) =
       map cast_int64 (col_sums Float64 (map (realign_row (dtm_dtype d) (feature_names d) v) (dtm d)))"
    "doc_names (fst (change_vocabulary E d v)) = doc_names d"
    "stbl (fst (change_vocabulary E d v)) = stbl d"
    by (simp_all add: e)
qed

lemma fst_get_Pvals:
  "fst (get_Pvals E self dtbl) =
     (if feature_names dtbl \<noteq> feature_names self
      then fst (change_vocabulary E dtbl (feature_names self)) else dtbl)"
  by (auto simp: get_Pvals_def split: prod.splits option.splits)

lemma fst_priv_get_counts:
  "fst (priv_get_counts E self dtbl w) =
     (if feature_names dtbl \<noteq> feature_names self
      then fst (change_vocabulary E dtbl (feature_names self)) else dtbl)"
  by (auto simp: priv_get_counts_def Let_def split: prod.splits option.splits sum.splits)

lemma fst_per_doc_Pvals_LOO:
  "fst (per_doc_Pvals_LOO E self dtbl) =
     (if feature_names dtbl \<noteq> feature_names self
      then fst (change_vocabulary E dtbl (feature_names self)) else dtbl)"
  by (auto simp: per_doc_Pvals_LOO_def split: prod.splits option.splits)

lemma fst_two_table_test:
  "fst (two_table_test E f self dtbl w so) = fst (priv_get_counts E self dtbl w)"
  by (auto simp: two_table_test_def Let_def split: prod.splits sum.splits)

lemma fst_get_ChiSquare:
  "fst (get_ChiSquare E f self dtbl w l) = fst (priv_get_counts E self dtbl w)"
  by (auto simp: get_ChiSquare_def split: prod.splits sum.splits)

lemma fst_get_KS:
  "fst (get_KS E f self dtbl w) = fst (priv_get_counts E self dtbl w)"
  by (auto simp: get_KS_def split: prod.splits sum.splits)

lemma fst_get_CosineSim:
  "fst (get_CosineSim E f self dtbl w) = fst (priv_get_counts E self dtbl w)"
  by (auto simp: get_CosineSim_def split: prod.splits sum.splits)

lemma fst_candidate_score:
  "fst (candidate_score E self dtbl masked w st) =
     (if w then dtbl else fst (get_Pvals E self dtbl))"
  by (auto simp: candidate_score_def Let_def split: prod.splits sum.splits)

lemma feature_names_fst_get_Pvals:
  "feature_names (fst (get_Pvals E self dtbl)) = feature_names self"
  by (simp add: fst_get_Pvals change_vocabulary_sel)

lemma fst_get_HC_rank_features:
  "fst (get_HC_rank_features E self dtbl LOO masked w so) =
     (if w then dtbl else fst (get_Pvals E self dtbl))"
proof -
  let ?st = "case so of None \<Rightarrow> stbl self | Some b \<Rightarrow> b"
  obtain d1 r where cs: "candidate_score E self dtbl masked w ?st = (d1, r)" by fastforce
  have d1: "d1 = (if w then dtbl else fst (get_Pvals E self dtbl))"
    using fst_candidate_score[of E self dtbl masked w ?st] cs by simp
  show ?thesis
  proof (cases "LOO = False \<or> w = True")
    case True
    then show ?thesis using cs d1
      by (auto simp: get_HC_rank_features_def Let_def split: prod.splits sum.splits)
  next
    case False
    then have w: "\<not> w" by simp
    then have fn: "feature_names d1 = feature_names self"
      using d1 by (simp add: feature_names_fst_get_Pvals)
    have "fst (per_doc_Pvals_LOO E self d1) = d1"
      using fn by (simp add: fst_per_doc_Pvals_LOO)
    then show ?thesis using cs d1 w False
      by (auto simp: get_HC_rank_features_def Let_def split: prod.splits sum.splits)
  qed
qed

lemma add_table_other_vocabulary_fails:
  "feature_names self \<noteq> feature_names dtbl \<Longrightarrow>
     \<exists>e. snd (add_table E self (Some dtbl)) = Inl e"
  by (auto simp: add_table_def Let_def split: prod.splits option.splits)

lemma add_table_same_vocabulary:
  "feature_names self = feature_names dtbl \<Longrightarrow>
   vstack (dtm_dtype self) (dtm self) (dtm_dtype dtbl) (dtm dtbl) = Inr (dt, tall) \<Longrightarrow>
     add_table E self (Some dtbl) =
       (Some dtbl, init_with_dtype E dt tall (feature_names self)
                     (map fst (doc_names self) @ map fst (doc_names dtbl)) (stbl self))"
  by (simp add: add_table_def Let_def)

lemmas eval_vocab_defs =
  change_vocabulary_def realign_row_def priv_compute_internal_stat_def

lemma f64_large:
  "f64 9007199254740993 = 9007199254740992" "f64 9007199254740992 = 9007199254740992"
  by (simp_all add: f64_def Let_def bit_length.simps)

lemma realign_rounds_large_counts:
  "DocTermTable_init toy_aux [[9007199254740993, 1], [1, 1]] [''a'', ''b''] [] True =
     Inr \<lparr>doc_names = [(''doc0'', 0), (''doc1'', 1)], feature_names = [''a'', ''b''],
          dtm = [[9007199254740993, 1], [1, 1]], dtm_dtype = Int64, stbl = True,
          terms_per_doc = [9007199254740994, 2], counts = [9007199254740994, 2],
          internal_scores = [Fin 1, Fin 9007199254740993]\<rparr> \<and>
   change_vocabulary toy_aux
     \<lparr>doc_names = [(''doc0'', 0), (''doc1'', 1)], feature_names = [''a'', ''b''],
      dtm = [[9007199254740993, 1], [1, 1]], dtm_dtype = Int64, stbl = True,
      terms_per_doc = [9007199254740994, 2], counts = [9007199254740994, 2],
      internal_scores = [Fin 1, Fin 9007199254740993]\<rparr> [''a'', ''b''] =
     (\<lparr>doc_names = [(''doc0'', 0), (''doc1'', 1)], feature_names = [''a'', ''b''],
       dtm = [[9007199254740992, 1], [1, 1]], dtm_dtype = Float64, stbl = True,
       terms_per_doc = [9007199254740992, 2], counts = [9007199254740992, 2],
       internal_scores = [Fin 0, Fin 9007199254740991]\<rparr>, None)"
  by (simp add: eval_defs eval_vocab_defs np_sum_def store_def wrap64_def astype_int_def
      cast_int64_def as_dtype_def sub64_def sum_all_def row_sums_def col_sums_def ncols_def
      any_negative_def f64_id f64_large)










lemma copy_up_to_date:
  assumes "up_to_date E t" "sum_all (dtm_dtype t) (dtm t) \<noteq> 0"
  shows "\<exists>t'. copy E t = Inr t' \<and> dtm t' = dtm t \<and> dtm_dtype t' = dtm_dtype t \<and>
           counts t' = counts t \<and> internal_scores t' = internal_scores t \<and>
           feature_names t' = feature_names t \<and> stbl t' = stbl t"
proof -
  let ?s = "init_attributes (dtm_dtype t) (dtm t) (feature_names t) (map fst (doc_names t)) (stbl t)"
  have c: "priv_compute_internal_stat E t = (t, None)" using assms(1) by (simp add: up_to_date_def)
  have cong: "snd (priv_compute_internal_stat E ?s) = snd (priv_compute_internal_stat E t) \<and>
         internal_scores (fst (priv_compute_internal_stat E ?s)) =
         internal_scores (fst (priv_compute_internal_stat E t)) \<and>
         counts (fst (priv_compute_internal_stat E ?s)) = counts (fst (priv_compute_internal_stat E t))"
    by (rule compute_cong) simp_all
  obtain t' where t': "priv_compute_internal_stat E ?s = (t', None)"
    using cong c by (cases "priv_compute_internal_stat E ?s") auto
  then have r: "copy E t = Inr t'" using assms(2) by (simp add: copy_def init_with_dtype_def Let_def)
  have f: "dtm t' = dtm t" "dtm_dtype t' = dtm_dtype t" "feature_names t' = feature_names t"
    "stbl t' = stbl t"
    using init_with_dtype_Inr(1-4)[OF r[unfolded copy_def]] by simp_all
  have "counts t' = counts t" "internal_scores t' = internal_scores t"
    using cong c t' by simp_all
  then show ?thesis using r f by blast
qed

lemma sibling_paths_realign_argument:
  assumes "feature_names dtbl \<noteq> feature_names self"
  shows "fst (get_Pvals E self dtbl) = fst (change_vocabulary E dtbl (feature_names self)) \<and>
    fst (priv_get_counts E self dtbl w) = fst (change_vocabulary E dtbl (feature_names self)) \<and>
    fst (two_table_test E f1 self dtbl w so) = fst (change_vocabulary E dtbl (feature_names self)) \<and>
    fst (get_ChiSquare E f2 self dtbl w l) = fst (change_vocabulary E dtbl (feature_names self)) \<and>
    fst (get_KS E f3 self dtbl w) = fst (change_vocabulary E dtbl (feature_names self)) \<and>
    fst (get_CosineSim E f4 self dtbl w) = fst (change_vocabulary E dtbl (feature_names self)) \<and>
    fst (per_doc_Pvals_LOO E self dtbl) = fst (change_vocabulary E dtbl (feature_names self)) \<and>
    fst (get_HC_rank_features E self dtbl LOO masked False so) =
      fst (change_vocabulary E dtbl (feature_names self)) \<and>
    feature_names (fst (change_vocabulary E dtbl (feature_names self))) = feature_names self \<and>
    dtm (fst (change_vocabulary E dtbl (feature_names self))) =
      map (realign_row (dtm_dtype dtbl) (feature_names dtbl) (feature_names self)) (dtm dtbl)"
  using assms
  by (simp add: fst_get_Pvals fst_priv_get_counts fst_two_table_test fst_get_ChiSquare fst_get_KS
      fst_get_CosineSim fst_per_doc_Pvals_LOO fst_get_HC_rank_features change_vocabulary_sel)

lemma rank_within_leaves_argument:
  "fst (get_HC_rank_features E self dtbl LOO masked True so) = dtbl"
  by (simp add: fst_get_HC_rank_features)

section \<open>The claims\<close>

text \<open>
  Claim C1. In internal mode the rank that rank evaluation returns is, for a table
  whose cache of internal scores is not empty, the number of cached scores strictly
  below the candidate's HC score, plus one with \<open>within\<close>, divided by the number of
  cached scores plus one less one with \<open>within\<close>; for an empty cache the rank is
  \<open>NaN\<close>, and the empty cache raises nothing: the call raises only where the scoring
  of the candidate does. The source takes this branch when \<open>LOO\<close> is false, and
  whenever \<open>within\<close> is true.
\<close>

theorem internal_rank_formula:
  assumes "LOO = False \<or> within_arg = True"
  shows "get_HC_rank_features E self dtbl LOO masked within_arg stbl_arg =
     (case candidate_score E self dtbl masked within_arg
             (case stbl_arg of None \<Rightarrow> stbl self | Some b \<Rightarrow> b) of
        (d1, Inl e) \<Rightarrow> (d1, Inl e)
      | (d1, Inr (HC, feat)) \<Rightarrow>
          (d1, Inr (HC,
                    (if internal_scores self = [] then NaN
                     else spec_rank (internal_scores self) HC within_arg),
                    feat)))"
  using assms
  by (auto simp: get_HC_rank_features_def Let_def rank_among_spec rank_among_empty
      split: prod.splits sum.splits)

theorem internal_rank_formula_witness:
  "get_HC_rank_features toy_aux corpus_table candidate_table False [] True None =
     (candidate_table, Inr (Fin 1, Fin 1, [''a''])) \<and>
   spec_rank (internal_scores corpus_table) (Fin 1) True = Fin 1 \<and>
   get_HC_rank_features toy_aux corpus_table candidate_table False [] False None =
     (candidate_table, Inr (Fin 2, Fin (1 / 3), [])) \<and>
   spec_rank (internal_scores corpus_table) (Fin 2) False = Fin (1 / 3) \<and>
   get_HC_rank_features toy_aux (corpus_table\<lparr>internal_scores := []\<rparr>) candidate_table False [] False None =
     (candidate_table, Inr (Fin 2, NaN, []))"
  using internal_rank_formula[where LOO = False and within_arg = True and E = toy_aux
      and self = corpus_table and dtbl = candidate_table and masked = "[]" and stbl_arg = None]
    internal_rank_formula[where LOO = False and within_arg = False and E = toy_aux
      and self = corpus_table and dtbl = candidate_table and masked = "[]" and stbl_arg = None]
    internal_rank_formula[where LOO = False and within_arg = False and E = toy_aux
      and self = "corpus_table\<lparr>internal_scores := []\<rparr>" and dtbl = candidate_table
      and masked = "[]" and stbl_arg = None]
  by (simp add: eval_rank_defs)




text \<open>
  Claim C3. Computing p-values with \<open>within\<close> takes the external counts off the
  table's aggregate counts first, in \<open>int64\<close> (\<open>sub64\<close>, the plain difference
  wherever that is an \<open>int64\<close>). For a count vector (\<open>_get_Pvals\<close>): a result is
  returned only when no adjusted count is negative, and it is the test of the external
  counts against the adjusted counts; a negative adjusted count at any feature raises
  the error of \<open>within\<close>. For a table (\<open>_get_counts\<close>, after the realignment of the
  argument): the adjusted counts are returned when none is negative, and the same error
  is raised otherwise.
\<close>

theorem within_subtracts_and_checks:
  "(priv_get_Pvals E self cnts True = Inr pv \<longrightarrow>
      length cnts = length (counts self) \<and>
      list_all (\<lambda>x. 0 \<le> x) (map2 sub64 (counts self) cnts) \<and>
      pv = two_counts_pvals E cnts (map2 sub64 (counts self) cnts)) \<and>
   (length cnts = length (counts self) \<and> i < length cnts \<and> sub64 (counts self ! i) (cnts ! i) < 0 \<longrightarrow>
      priv_get_Pvals E self cnts True = Inl ValueError_within) \<and>
   (length cnts = length (counts self) \<and>
    list_all (\<lambda>x. 0 \<le> x) (map2 sub64 (counts self) cnts) \<longrightarrow>
      priv_get_Pvals E self cnts True =
        Inr (two_counts_pvals E cnts (map2 sub64 (counts self) cnts))) \<and>
   ((if feature_names dtbl \<noteq> feature_names self
     then change_vocabulary E dtbl (feature_names self) else (dtbl, None)) = (d1, None) \<and>
    np_sub (counts self) (counts d1) = Inr c \<longrightarrow>
      priv_get_counts E self dtbl True =
        (d1, if list_ex (\<lambda>x. x < 0) c then Inl ValueError_within else Inr (c, counts d1))) \<and>
   (length (counts self) = length (counts d1) \<longrightarrow>
      np_sub (counts self) (counts d1) = Inr (map2 sub64 (counts self) (counts d1))) \<and>
   (- (2 ^ 63) \<le> x - y \<and> x - y < 2 ^ 63 \<longrightarrow> sub64 x y = x - y)"
proof -
  have neg: "any_negative v \<longleftrightarrow> \<not> list_all (\<lambda>x. 0 \<le> x) v" for v
    by (induction v) (auto simp: any_negative_def)
  have a: "priv_get_Pvals E self cnts True = Inr pv \<longrightarrow>
      length cnts = length (counts self) \<and>
      list_all (\<lambda>x. 0 \<le> x) (map2 sub64 (counts self) cnts) \<and>
      pv = two_counts_pvals E cnts (map2 sub64 (counts self) cnts)"
    by (auto simp: priv_get_Pvals_def Let_def neg split: if_splits)
  have b: "length cnts = length (counts self) \<and> i < length cnts \<and> sub64 (counts self ! i) (cnts ! i) < 0 \<longrightarrow>
      priv_get_Pvals E self cnts True = Inl ValueError_within"
  proof
    assume h: "length cnts = length (counts self) \<and> i < length cnts \<and> sub64 (counts self ! i) (cnts ! i) < 0"
    then have "\<exists>j<length (map2 sub64 (counts self) cnts).
                 map2 sub64 (counts self) cnts ! j < 0"
      by (intro exI[of _ i]) simp
    then have "any_negative (map2 sub64 (counts self) cnts)"
      by (simp only: any_negative_iff)
    then show "priv_get_Pvals E self cnts True = Inl ValueError_within"
      using h by (simp add: priv_get_Pvals_def Let_def)
  qed
  have c: "length cnts = length (counts self) \<and>
    list_all (\<lambda>x. 0 \<le> x) (map2 sub64 (counts self) cnts) \<longrightarrow>
      priv_get_Pvals E self cnts True =
        Inr (two_counts_pvals E cnts (map2 sub64 (counts self) cnts))"
    by (simp add: priv_get_Pvals_def Let_def neg)
  have d: "(if feature_names dtbl \<noteq> feature_names self
     then change_vocabulary E dtbl (feature_names self) else (dtbl, None)) = (d1, None) \<and>
    np_sub (counts self) (counts d1) = Inr c \<longrightarrow>
      priv_get_counts E self dtbl True =
        (d1, if list_ex (\<lambda>x. x < 0) c then Inl ValueError_within else Inr (c, counts d1))"
    by (simp add: priv_get_counts_def Let_def any_negative_def)
  have e: "length (counts self) = length (counts d1) \<longrightarrow>
      np_sub (counts self) (counts d1) = Inr (map2 sub64 (counts self) (counts d1))"
    by (simp add: np_sub_same_length)
  have f: "- (2 ^ 63) \<le> x - y \<and> x - y < 2 ^ 63 \<longrightarrow> sub64 x y = x - y"
    by (simp add: sub64_exact)
  show ?thesis using a b c d e f by blast
qed

theorem within_subtracts_and_checks_witness:
  "priv_get_Pvals toy_aux corpus_table [1, 0] True = Inr [Fin 1, Fin 2] \<and>
   [Fin 1, Fin 2] = two_counts_pvals toy_aux [1, 0] (map2 sub64 (counts corpus_table) [1, 0]) \<and>
   length [3, 0 :: int] = length (counts corpus_table) \<and> (0 :: nat) < length [3, 0 :: int] \<and>
   sub64 (counts corpus_table ! 0) ([3, 0] ! 0) < 0 \<and>
   priv_get_Pvals toy_aux corpus_table [3, 0] True = Inl ValueError_within \<and>
   np_sub (counts corpus_table) (counts candidate_table) = Inr [1, 2] \<and>
   priv_get_counts toy_aux corpus_table candidate_table True = (candidate_table, Inr ([1, 2], [1, 0])) \<and>
   sub64 2 3 = 2 - 3"
  using within_subtracts_and_checks[where E = toy_aux and self = corpus_table and cnts = "[1, 0]"
      and pv = "[Fin 1, Fin 2]" and i = 0 and dtbl = candidate_table and ?d1.0 = candidate_table
      and c = "[1, 2]" and x = 2 and y = 3]
    within_subtracts_and_checks[where E = toy_aux and self = corpus_table and cnts = "[3, 0]"
      and pv = "[]" and i = 0 and dtbl = candidate_table and ?d1.0 = candidate_table
      and c = "[1, 2]" and x = 2 and y = 3]
  by (simp add: priv_get_Pvals_def toy_aux_def corpus_table_def candidate_table_def
      any_negative_def Let_def np_sub_def np_binop_def promote_def as_dtype_def store_def
      sub64_def wrap64_def)

text \<open>
  Claim C4, as amended. Constructing a table from an \<open>int64\<close> count matrix whose
  entries sum to zero fails with the error of the all-zero check. The check reads the
  total as \<open>dtm.sum()\<close> computes it, modulo \<open>2 ^ 64\<close>: the constructor raises that
  error exactly when the total is a multiple of \<open>2 ^ 64\<close>. So for every matrix with
  a positive total below \<open>2 ^ 64\<close> the constructor does not raise that error, and
  for a rectangular matrix of nonnegative counts with a positive total below
  \<open>2 ^ 63\<close> it returns a table. The counterexample is a matrix of four entries
  \<open>2 ^ 62\<close>: its total is positive and the constructor raises the all-zero error.
\<close>

theorem init_fails_iff_total_wraps_to_zero:
  "(grand_total m = 0 \<longrightarrow> DocTermTable_init E m fn dn st = Inl ValueError_all_zero) \<and>
   (DocTermTable_init E m fn dn st = Inl ValueError_all_zero \<longleftrightarrow> grand_total m mod 2 ^ 64 = 0) \<and>
   (0 < grand_total m \<and> grand_total m < 2 ^ 64 \<longrightarrow>
      DocTermTable_init E m fn dn st \<noteq> Inl ValueError_all_zero) \<and>
   (0 < grand_total m \<and> grand_total m < 2 ^ 63 \<and> rectangular n m \<and> nonnegative m \<longrightarrow>
      (\<exists>t. DocTermTable_init E m fn dn st = Inr t))"
proof -
  have a: "DocTermTable_init E m fn dn st = Inl ValueError_all_zero \<longleftrightarrow> grand_total m mod 2 ^ 64 = 0"
    by (rule init_all_zero_iff)
  have b: "grand_total m = 0 \<longrightarrow> DocTermTable_init E m fn dn st = Inl ValueError_all_zero"
    using a by simp
  have c: "0 < grand_total m \<and> grand_total m < 2 ^ 64 \<longrightarrow>
      DocTermTable_init E m fn dn st \<noteq> Inl ValueError_all_zero"
    using a by auto
  have d: "0 < grand_total m \<and> grand_total m < 2 ^ 63 \<and> rectangular n m \<and> nonnegative m \<longrightarrow>
      (\<exists>t. DocTermTable_init E m fn dn st = Inr t)"
    using init_ok[of m n E fn dn st] by blast
  show ?thesis using a b c d by blast
qed

theorem init_fails_iff_total_wraps_to_zero_witness:
  "grand_total [[0, 0, 0, 0], [0, 0, 0, 0], [0, 0, 0, 0]] = 0 \<and>
   DocTermTable_init toy_aux [[0, 0, 0, 0], [0, 0, 0, 0], [0, 0, 0, 0]] [] [] True
     = Inl ValueError_all_zero \<and>
   0 < grand_total [[2, 0], [0, 2]] \<and> grand_total [[2, 0], [0, 2]] < 2 ^ 63 \<and>
   rectangular 2 [[2, 0], [0, 2]] \<and> nonnegative [[2, 0], [0, 2]] \<and>
   DocTermTable_init toy_aux [[2, 0], [0, 2]] [''a'', ''b''] [] True \<noteq> Inl ValueError_all_zero \<and>
   (\<exists>t. DocTermTable_init toy_aux [[2, 0], [0, 2]] [''a'', ''b''] [] True = Inr t)"
  using init_fails_iff_total_wraps_to_zero[where m = "[[0, 0, 0, 0], [0, 0, 0, 0], [0, 0, 0, 0]]"
      and E = toy_aux and fn = "[]" and dn = "[]" and st = True and n = 4]
    init_fails_iff_total_wraps_to_zero[where m = "[[2, 0], [0, 2]]" and E = toy_aux
      and fn = "[''a'', ''b'']" and dn = "[]" and st = True and n = 2]
  by (simp add: grand_total_def rectangular_def nonnegative_def)

theorem init_positive_total_counterexample:
  "0 < grand_total [[4611686018427387904, 4611686018427387904],
                    [4611686018427387904, 4611686018427387904]] \<and>
   nonnegative [[4611686018427387904, 4611686018427387904],
                [4611686018427387904, 4611686018427387904]] \<and>
   DocTermTable_init toy_aux [[4611686018427387904, 4611686018427387904],
                              [4611686018427387904, 4611686018427387904]] [''a'', ''b''] [] True
     = Inl ValueError_all_zero"
  by (simp add: grand_total_def nonnegative_def DocTermTable_init_def init_with_dtype_def Let_def
      sum_all_def np_sum_def store_def wrap64_def)

text \<open>
  Claim C5. The claim has the cache of internal scores empty for a table of one
  document. The constructor computes one score for every row, also when there is one
  row only: the table built from the one-row matrix \<open>[[3, 1]]\<close> has a cache of
  length one, for any instance of \<open>HC_aux\<close>, and so has the table that
  \<open>get_doc_as_table\<close> returns. (For two or more documents the length of the cache
  is the number of documents, as the claim says: lemma \<open>init_cache_length\<close>.)
\<close>

theorem single_document_cache_not_empty:
  "(\<exists>t. DocTermTable_init E [[3, 1]] [''a'', ''b''] [] st = Inr t \<and>
        length (internal_scores t) = 1) \<and>
   (\<exists>t. get_doc_as_table toy_aux corpus_table ''doc1'' = Inr t \<and>
        internal_scores t = [Fin 0])"
proof -
  have "\<exists>t. DocTermTable_init E [[3, 1]] [''a'', ''b''] [] st = Inr t"
    by (rule init_ok[where n = 2]) (simp_all add: grand_total_def rectangular_def nonnegative_def)
  then obtain t where t: "DocTermTable_init E [[3, 1]] [''a'', ''b''] [] st = Inr t" by blast
  have "length (internal_scores t) = 1" using init_cache_length[OF t] by simp
  then have a: "\<exists>t. DocTermTable_init E [[3, 1]] [''a'', ''b''] [] st = Inr t \<and>
        length (internal_scores t) = 1" using t by blast
  have b: "\<exists>t. get_doc_as_table toy_aux corpus_table ''doc1'' = Inr t \<and>
        internal_scores t = [Fin 0]"
    by (simp add: get_doc_as_table_def corpus_table_def eval_defs eval_numpy_defs)
  show ?thesis using a b by blast
qed

text \<open>
  Claim C6, as amended. After \<open>collapse_dtm\<close> the matrix of a table whose statistics
  are current is the single row of the column sums of the previous matrix, in the
  dtype of the matrix; the aggregate counts are that row converted by \<open>.astype(int)\<close>,
  and the row itself for an \<open>int64\<close> matrix; the aggregate counts, the vocabulary,
  the document names and the cache of internal scores are left as they were, so the
  cache still holds one score for each document of the previous matrix.
\<close>

theorem collapse_keeps_internal_scores:
  assumes "up_to_date E t"
  shows "dtm (collapse_dtm t) = [col_sums (dtm_dtype t) (dtm t)] \<and>
         map (map (astype_int (dtm_dtype t))) (dtm (collapse_dtm t)) = [counts t] \<and>
         (dtm_dtype t = Int64 \<longrightarrow> dtm (collapse_dtm t) = [counts t]) \<and>
         counts (collapse_dtm t) = counts t \<and>
         feature_names (collapse_dtm t) = feature_names t \<and>
         doc_names (collapse_dtm t) = doc_names t \<and>
         internal_scores (collapse_dtm t) = internal_scores t \<and>
         length (internal_scores (collapse_dtm t)) = length (dtm t)"
  using up_to_date_fields[OF assms] by (simp add: collapse_dtm_def)

theorem collapse_keeps_internal_scores_witness:
  "up_to_date toy_aux corpus_table \<and>
   dtm (collapse_dtm corpus_table) = [[2, 2]] \<and>
   internal_scores (collapse_dtm corpus_table) = [Fin 0, Fin 2] \<and>
   length (internal_scores (collapse_dtm corpus_table)) = length (dtm corpus_table)"
proof -
  have u: "up_to_date toy_aux corpus_table"
    by (rule up_to_date_init[OF corpus_table_init])
  have e: "col_sums (dtm_dtype corpus_table) (dtm corpus_table) = [2, 2]"
    "internal_scores corpus_table = [Fin 0, Fin 2]"
    "length (dtm corpus_table) = 2" "dtm_dtype corpus_table = Int64"
    by (simp_all add: corpus_table_def eval_numpy_defs)
  from collapse_keeps_internal_scores[OF u] u e show ?thesis by simp
qed

theorem collapse_cache_counterexample:
  "DocTermTable_init toy_aux [[2, 0], [0, 2]] [''a'', ''b''] [] True = Inr corpus_table \<and>
   dtm (collapse_dtm corpus_table) = [[2, 2]] \<and>
   internal_scores (collapse_dtm corpus_table) = [Fin 0, Fin 2] \<and>
   internal_scores (collapse_dtm corpus_table) \<noteq> []"
  using corpus_table_init by (simp add: collapse_dtm_def corpus_table_def eval_numpy_defs)

text \<open>
  Claim C7. The claim has \<open>add_table\<close> return the merged table also when the
  vocabularies differ. At the tables \<open>corpus_table\<close> (vocabulary a, b) and
  \<open>other_table\<close> (vocabulary b, c) the source realigns the argument in place and
  then raises: the local name is bound to the \<open>None\<close> that
  \<open>change_vocabulary\<close> returns. Lemma \<open>add_table_other_vocabulary_fails\<close> has
  the same for every pair of tables of different vocabularies, and lemma
  \<open>add_table_same_vocabulary\<close> the merge for equal vocabularies.
\<close>

theorem add_table_other_vocabulary_raises:
  "feature_names corpus_table \<noteq> feature_names other_table \<and>
   add_table toy_aux corpus_table (Some other_table) =
     (Some \<lparr>doc_names = [(''x'', 0)], feature_names = [''a'', ''b''], dtm = [[0, 1]],
            dtm_dtype = Float64, stbl = True, terms_per_doc = [1], counts = [0, 1],
            internal_scores = [Fin 0]\<rparr>,
      Inl AttributeError_NoneType)"
  by (simp add: add_table_def corpus_table_def other_table_def eval_vocab_defs priv_get_Pvals_def
      toy_aux_def Let_def eval_numpy_defs)




text \<open>
  Claim C9, as amended. For a table whose statistics are current, \<open>add_table\<close> with
  \<open>None\<close> for the argument returns what \<open>copy\<close> returns, and that is: the
  all-zero error when the total of the matrix is zero, and otherwise a new table with
  the matrix, the aggregate counts, the number of documents and the internal scores
  of the table (and its vocabulary and flag). The counterexample is a collapsed
  table: the copy holds the one score of the collapsed row where the table holds the
  scores of its former documents.
\<close>

theorem add_table_None_is_copy:
  assumes "up_to_date E t"
  shows "add_table E t None = (None, copy E t) \<and>
    (sum_all (dtm_dtype t) (dtm t) = 0 \<longrightarrow> copy E t = Inl ValueError_all_zero) \<and>
    (sum_all (dtm_dtype t) (dtm t) \<noteq> 0 \<longrightarrow>
       (\<exists>t'. copy E t = Inr t' \<and> dtm t' = dtm t \<and> counts t' = counts t \<and>
             length (dtm t') = length (dtm t) \<and> internal_scores t' = internal_scores t \<and>
             feature_names t' = feature_names t \<and> stbl t' = stbl t))"
proof -
  have a: "add_table E t None = (None, copy E t)" by (simp add: add_table_def)
  have b: "sum_all (dtm_dtype t) (dtm t) = 0 \<longrightarrow> copy E t = Inl ValueError_all_zero"
    by (simp add: copy_def init_with_dtype_all_zero_iff)
  have c: "sum_all (dtm_dtype t) (dtm t) \<noteq> 0 \<longrightarrow>
       (\<exists>t'. copy E t = Inr t' \<and> dtm t' = dtm t \<and> counts t' = counts t \<and>
             length (dtm t') = length (dtm t) \<and> internal_scores t' = internal_scores t \<and>
             feature_names t' = feature_names t \<and> stbl t' = stbl t)"
  proof
    assume "sum_all (dtm_dtype t) (dtm t) \<noteq> 0"
    from copy_up_to_date[OF assms this] obtain t' where
      "copy E t = Inr t'" "dtm t' = dtm t" "counts t' = counts t"
      "internal_scores t' = internal_scores t" "feature_names t' = feature_names t"
      "stbl t' = stbl t" by blast
    then show "\<exists>t'. copy E t = Inr t' \<and> dtm t' = dtm t \<and> counts t' = counts t \<and>
             length (dtm t') = length (dtm t) \<and> internal_scores t' = internal_scores t \<and>
             feature_names t' = feature_names t \<and> stbl t' = stbl t" by simp
  qed
  show ?thesis using a b c by blast
qed

theorem add_table_None_is_copy_witness:
  "up_to_date toy_aux corpus_table \<and> sum_all (dtm_dtype corpus_table) (dtm corpus_table) \<noteq> 0 \<and>
   add_table toy_aux corpus_table None = (None, Inr corpus_table) \<and>
   copy toy_aux corpus_table = Inr corpus_table"
proof -
  have u: "up_to_date toy_aux corpus_table"
    by (rule up_to_date_init[OF corpus_table_init])
  have e: "sum_all (dtm_dtype corpus_table) (dtm corpus_table) \<noteq> 0"
    "copy toy_aux corpus_table = Inr corpus_table"
    by (simp_all add: copy_def corpus_table_def eval_defs eval_numpy_defs)
  from add_table_None_is_copy[OF u] u e show ?thesis by simp
qed

theorem add_table_None_collapsed_counterexample:
  "add_table toy_aux (collapse_dtm corpus_table) None =
     (None, Inr \<lparr>doc_names = [(''doc0'', 0)], feature_names = [''a'', ''b''], dtm = [[2, 2]],
                 dtm_dtype = Int64, stbl = True, terms_per_doc = [4], counts = [2, 2],
                 internal_scores = [Fin 0]\<rparr>) \<and>
   internal_scores (collapse_dtm corpus_table) = [Fin 0, Fin 2] \<and>
   doc_names (collapse_dtm corpus_table) = [(''doc0'', 0), (''doc1'', 1)]"
  by (simp add: add_table_def copy_def collapse_dtm_def corpus_table_def eval_defs eval_numpy_defs)

text \<open>
  Claim C10. The claim has every comparison operation realign an argument table of
  another vocabulary in place. Rank evaluation with \<open>within\<close> does not: at the
  tables \<open>corpus_table\<close> (vocabulary a, b) and \<open>other_table\<close> (vocabulary b, c) it
  returns with the argument as it was, having compared the counts of b, c with those
  of a, b column by column, while rank evaluation without \<open>within\<close> and
  \<open>_get_counts\<close> with \<open>within\<close> leave the argument realigned. Lemma
  \<open>sibling_paths_realign_argument\<close> has the realignment for all the other
  operations and every pair of tables of different vocabularies, and lemma
  \<open>rank_within_leaves_argument\<close> the missing one for every call with \<open>within\<close>.
\<close>

theorem rank_within_skips_realignment:
  "feature_names other_table \<noteq> feature_names corpus_table \<and>
   get_HC_rank_features toy_aux corpus_table other_table False [] True None =
     (other_table, Inr (Fin 1, Fin 1, [''a'', ''b''])) \<and>
   fst (get_HC_rank_features toy_aux corpus_table other_table False [] False None) =
     \<lparr>doc_names = [(''x'', 0)], feature_names = [''a'', ''b''], dtm = [[0, 1]],
      dtm_dtype = Float64, stbl = True, terms_per_doc = [1], counts = [0, 1],
      internal_scores = [Fin 0]\<rparr> \<and>
   fst (priv_get_counts toy_aux corpus_table other_table True) =
     \<lparr>doc_names = [(''x'', 0)], feature_names = [''a'', ''b''], dtm = [[0, 1]],
      dtm_dtype = Float64, stbl = True, terms_per_doc = [1], counts = [0, 1],
      internal_scores = [Fin 0]\<rparr>"
  by (simp add: eval_rank_defs eval_vocab_defs priv_get_counts_def astype_int_def cast_int64_def
      as_dtype_def np_sum_def store_def f64_def row_sums_def col_sums_def ncols_def
      np_sub_def np_binop_def promote_def)

end
